theory Spec2Isabelle
  imports Main
begin

text \<open>
  A model of the core of the sovereign stack: the in-memory keystore, the hash-chained
  event log, the mandate lifecycle, receipts and the receipt chain, and the MCP FS
  adapter with its propose/commit state machine. Each function of the source is a
  function of the same name here; state that the source mutates is passed in and
  returned, a thrown error is the \<open>Inl\<close> of a sum, and the values a call draws from
  the clock or the random generator are arguments. The definitions come first, the
  properties after them.
\<close>

section \<open>Values shared by all modules\<close>

text \<open>
  JavaScript strings are modelled as character lists. Values whose shape the kernel does
  not interpret (event payloads, tool arguments and outputs, receipt data) are JSON-like
  values; \<open>JUndefined\<close> is JavaScript's \<open>undefined\<close>, which an optional field holds when
  it is unset.
\<close>

datatype json =
    JUndefined
  | JNull
  | JBool bool
  | JNum int
  | JStr string
  | JArr "json list"
  | JObj "(string \<times> json) list"

text \<open>A thrown \<open>Error\<close> with its message.\<close>

datatype error = Error string

record ValidationResult =
  valid :: bool
  errors :: "string list"

type_synonym KeyId = string
type_synonym ActorId = string
type_synonym EventId = string
type_synonym MandateId = string

subsection \<open>String operations of the JavaScript runtime used by the source\<close>

definition startsWith :: "string \<Rightarrow> string \<Rightarrow> bool" where
  "startsWith s x = (take (length x) s = x)"

definition endsWith :: "string \<Rightarrow> string \<Rightarrow> bool" where
  "endsWith s x = (length x \<le> length s \<and> drop (length s - length x) s = x)"

text \<open>\<open>s.slice(0, -1)\<close>: everything but the last character.\<close>

definition slice_0_m1 :: "string \<Rightarrow> string" where
  "slice_0_m1 s = take (length s - 1) s"

text \<open>\<open>xs.join(sep)\<close>.\<close>

fun join :: "string \<Rightarrow> string list \<Rightarrow> string" where
  "join sep [] = []"
| "join sep [x] = x"
| "join sep (x # y # ys) = x @ sep @ join sep (y # ys)"

section \<open>External libraries\<close>

text \<open>
  The functions the source imports from packages outside the repository
  (\<open>canonicalize\<close>, \<open>@noble/hashes\<close>, \<open>@noble/curves/ed25519\<close>) and from the
  JavaScript runtime (\<open>Date\<close>, \<open>Buffer\<close>, \<open>JSON\<close>) are parameters of the model.
  Byte arrays are character lists, so \<open>new TextEncoder().encode\<close> is the identity.
  \<^item> \<open>canonicalize\<close> returns \<open>None\<close> where the library returns \<open>undefined\<close>;
  \<^item> \<open>hexToBytes\<close> and \<open>ed25519_verify\<close> may throw;
  \<^item> \<open>parseDate s\<close> is the time value of \<open>new Date(s)\<close>, \<open>None\<close> for an invalid date;
  \<^item> \<open>base64\<close> is \<open>Buffer.from(bytes).toString('base64')\<close>;
  \<^item> \<open>js_String\<close> is the conversion to a string that a template literal applies.
\<close>

record extlib =
  canonicalize :: "json \<Rightarrow> string option"
  sha256 :: "string \<Rightarrow> string"
  bytesToHex :: "string \<Rightarrow> string"
  hexToBytes :: "string \<Rightarrow> error + string"
  ed25519_sign :: "string \<Rightarrow> string \<Rightarrow> error + string"
  ed25519_verify :: "string \<Rightarrow> string \<Rightarrow> string \<Rightarrow> error + bool"
  ed25519_getPublicKey :: "string \<Rightarrow> string"
  parseDate :: "string \<Rightarrow> int option"
  base64 :: "string \<Rightarrow> string"
  JSON_stringify :: "json \<Rightarrow> string"
  js_String :: "json \<Rightarrow> string"

text \<open>\<open>!canonical\<close>: the result is \<open>undefined\<close> or the empty string.\<close>

definition falsy :: "string option \<Rightarrow> bool" where
  "falsy c = (case c of None \<Rightarrow> True | Some s \<Rightarrow> s = [])"

text \<open>An optional string field as a JavaScript value.\<close>

definition opt_str :: "string option \<Rightarrow> json" where
  "opt_str x = (case x of None \<Rightarrow> JUndefined | Some s \<Rightarrow> JStr s)"

definition opt_num :: "int option \<Rightarrow> json" where
  "opt_num x = (case x of None \<Rightarrow> JUndefined | Some n \<Rightarrow> JNum n)"

definition opt_json :: "json option \<Rightarrow> json" where
  "opt_json x = (case x of None \<Rightarrow> JUndefined | Some j \<Rightarrow> j)"

text \<open>\<open>hashCanonical\<close> (core types).\<close>

definition hashCanonical :: "extlib \<Rightarrow> json \<Rightarrow> error + string" where
  "hashCanonical L data =
     (let canonical = canonicalize L data in
      if falsy canonical then Inl (Error ''Failed to canonicalize data for hashing'')
      else Inr (bytesToHex L (sha256 L (the canonical))))"

text \<open>Decimal rendering of an array index inside a template string.\<close>

fun string_of_nat :: "nat \<Rightarrow> string" where
  "string_of_nat n =
     (if n < 10 then [''0123456789'' ! n]
      else string_of_nat (n div 10) @ [''0123456789'' ! (n mod 10)])"

declare string_of_nat.simps [simp del]

section \<open>InMemoryKeystore\<close>

record KeyPair =
  keyId :: KeyId
  publicKey :: string
  privateKey :: "string option"

type_synonym InMemoryKeystore = "KeyId \<rightharpoonup> KeyPair"

text \<open>
  \<open>ensureUserKey\<close>; \<open>fresh\<close> is the value \<open>ed25519.utils.randomPrivateKey()\<close> returns
  if it is called.
\<close>

definition ensureUserKey :: "extlib \<Rightarrow> string \<Rightarrow> ActorId \<Rightarrow> InMemoryKeystore \<Rightarrow> KeyId \<times> InMemoryKeystore" where
  "ensureUserKey L fresh actorId keys =
     (let kid = ''ed25519:'' @ actorId in
      if keys kid = None
      then (kid, keys(kid \<mapsto> \<lparr> keyId = kid, publicKey = ed25519_getPublicKey L fresh,
                               privateKey = Some fresh \<rparr>))
      else (kid, keys))"

text \<open>
  \<open>sign\<close>: when the key pair or its private key is missing, the method throws
  \<open>new Error(`Key not found or private key unavailable: ${keyId}`)\<close>.
\<close>

definition ks_sign :: "extlib \<Rightarrow> InMemoryKeystore \<Rightarrow> string \<Rightarrow> KeyId \<Rightarrow> error + string" where
  "ks_sign L keys digest kid =
     (case keys kid of
        None \<Rightarrow> Inl (Error (''Key not found or private key unavailable: '' @ kid))
      | Some keyPair \<Rightarrow>
          (case privateKey keyPair of
             None \<Rightarrow> Inl (Error (''Key not found or private key unavailable: '' @ kid))
           | Some sk \<Rightarrow>
               (case ed25519_sign L digest sk of
                  Inl e \<Rightarrow> Inl e
                | Inr sg \<Rightarrow> Inr (bytesToHex L sg))))"

text \<open>\<open>verify\<close>: the \<open>try\<close> block returns the library's answer, the \<open>catch\<close> returns false.\<close>

definition ks_verify :: "extlib \<Rightarrow> string \<Rightarrow> string \<Rightarrow> string \<Rightarrow> bool" where
  "ks_verify L sg digest pk =
     (case hexToBytes L sg of
        Inl e \<Rightarrow> False
      | Inr sigBytes \<Rightarrow>
          (case ed25519_verify L sigBytes digest pk of
             Inl e \<Rightarrow> False
           | Inr ok \<Rightarrow> ok))"

definition getPublicKey :: "InMemoryKeystore \<Rightarrow> KeyId \<Rightarrow> string option" where
  "getPublicKey keys kid = map_option publicKey (keys kid)"

definition importKeyPair :: "KeyId \<Rightarrow> string \<Rightarrow> string option \<Rightarrow> InMemoryKeystore \<Rightarrow> InMemoryKeystore" where
  "importKeyPair kid pk sk keys = keys(kid \<mapsto> \<lparr> keyId = kid, publicKey = pk, privateKey = sk \<rparr>)"

section \<open>EventLog\<close>

record CanonicalEvent =
  e_id :: EventId
  e_type :: string
  e_timestamp :: string
  e_payload :: json
  e_signer :: ActorId
  e_signature :: string
  e_prev_hash :: "string option"

text \<open>The event object, and the same object with the \<open>signature\<close> field removed.\<close>

definition event_toSign :: "CanonicalEvent \<Rightarrow> json" where
  "event_toSign e =
     JObj [(''type'', JStr (e_type e)), (''payload'', e_payload e),
           (''signer'', JStr (e_signer e)), (''id'', JStr (e_id e)),
           (''timestamp'', JStr (e_timestamp e)), (''prev_hash'', opt_str (e_prev_hash e))]"

definition event_json :: "CanonicalEvent \<Rightarrow> json" where
  "event_json e =
     JObj [(''type'', JStr (e_type e)), (''payload'', e_payload e),
           (''signer'', JStr (e_signer e)), (''id'', JStr (e_id e)),
           (''timestamp'', JStr (e_timestamp e)), (''prev_hash'', opt_str (e_prev_hash e)),
           (''signature'', JStr (e_signature e))]"

text \<open>The argument of \<open>append\<close>: type, payload and signer.\<close>

record PartialEvent =
  pe_type :: string
  pe_payload :: json
  pe_signer :: ActorId

text \<open>
  \<open>append\<close>. \<open>eid\<close> and \<open>ts\<close> are the identifier and the timestamp the call draws from
  the clock and the random generator. The result is the new identifier and the log
  with the event pushed; an error leaves the log as it was.
\<close>

definition append :: "extlib \<Rightarrow> EventId \<Rightarrow> string \<Rightarrow> PartialEvent \<Rightarrow> InMemoryKeystore
    \<Rightarrow> CanonicalEvent list \<Rightarrow> error + (EventId \<times> CanonicalEvent list)" where
  "append L eid ts event keys events =
     (case (if events \<noteq> [] then map_sum id Some (hashCanonical L (event_json (last events)))
            else Inr None) of
        Inl e \<Rightarrow> Inl e
      | Inr prev \<Rightarrow>
          (let fullEvent = \<lparr> e_id = eid, e_type = pe_type event, e_timestamp = ts,
                              e_payload = pe_payload event, e_signer = pe_signer event,
                              e_signature = [], e_prev_hash = prev \<rparr>;
               canonical = canonicalize L (event_toSign fullEvent)
           in if falsy canonical then Inl (Error ''Failed to canonicalize event'')
              else (case ks_sign L keys (the canonical) (''ed25519:'' @ pe_signer event) of
                      Inl e \<Rightarrow> Inl e
                    | Inr sg \<Rightarrow> Inr (eid, events @ [fullEvent\<lparr> e_signature := sg \<rparr>]))))"

record ChainVerificationResult = ValidationResult +
  eventsVerified :: nat

text \<open>
  One iteration of the loop of \<open>verifyChain\<close>, in its two parts: the hash chain
  continuity check (which throws when \<open>hashCanonical\<close> does) and the signature check
  (whose \<open>continue\<close> branches push one message and stop). Each returns the messages it
  pushes.
\<close>

definition verifyChain_continuity :: "extlib \<Rightarrow> CanonicalEvent list \<Rightarrow> nat
    \<Rightarrow> error + string list" where
  "verifyChain_continuity L events i =
     (let evt = events ! i in
      if i > 0
      then (case hashCanonical L (event_json (events ! (i - 1))) of
              Inl e \<Rightarrow> Inl e
            | Inr expectedPrevHash \<Rightarrow>
                Inr (if e_prev_hash evt \<noteq> Some expectedPrevHash
                     then [''Event '' @ e_id evt @ '': Hash chain broken at index '' @ string_of_nat i]
                     else []))
      else Inr [])"

definition verifyChain_signature :: "extlib \<Rightarrow> InMemoryKeystore \<Rightarrow> CanonicalEvent
    \<Rightarrow> string list" where
  "verifyChain_signature L keys evt =
     (let canonical = canonicalize L (event_toSign evt) in
      if falsy canonical
      then [''Event '' @ e_id evt @ '': Failed to canonicalize'']
      else (case getPublicKey keys (''ed25519:'' @ e_signer evt) of
              None \<Rightarrow> [''Event '' @ e_id evt @ '': No public key for signer '' @ e_signer evt]
            | Some pk \<Rightarrow>
                if ks_verify L (e_signature evt) (the canonical) pk
                then []
                else [''Event '' @ e_id evt @ '': Invalid signature'']))"

definition verifyChain_step :: "extlib \<Rightarrow> InMemoryKeystore \<Rightarrow> CanonicalEvent list \<Rightarrow> nat
    \<Rightarrow> error + string list" where
  "verifyChain_step L keys events i =
     (case verifyChain_continuity L events i of
        Inl e \<Rightarrow> Inl e
      | Inr chainErrors \<Rightarrow> Inr (chainErrors @ verifyChain_signature L keys (events ! i)))"

text \<open>The loop over the indices, accumulating the messages.\<close>

fun verifyChain_loop :: "extlib \<Rightarrow> InMemoryKeystore \<Rightarrow> CanonicalEvent list \<Rightarrow> nat list
    \<Rightarrow> string list \<Rightarrow> error + string list" where
  "verifyChain_loop L keys events [] errs = Inr errs"
| "verifyChain_loop L keys events (i # rest) errs =
     (case verifyChain_step L keys events i of
        Inl e \<Rightarrow> Inl e
      | Inr new \<Rightarrow> verifyChain_loop L keys events rest (errs @ new))"

definition verifyChain :: "extlib \<Rightarrow> InMemoryKeystore \<Rightarrow> CanonicalEvent list
    \<Rightarrow> error + ChainVerificationResult" where
  "verifyChain L keys events =
     (case verifyChain_loop L keys events [0..<length events] [] of
        Inl e \<Rightarrow> Inl e
      | Inr errs \<Rightarrow> Inr \<lparr> valid = (errs = []), errors = errs, eventsVerified = length events \<rparr>)"

text \<open>
  \<open>payload?.mandate_id\<close> and other property reads: the field of an object (which holds
  each key once), \<open>undefined\<close> for a missing field and for a value that is not an object.
\<close>

definition payload_field :: "json \<Rightarrow> string \<Rightarrow> json" where
  "payload_field p k =
     (case p of
        JObj kvs \<Rightarrow> (case map_of kvs k of None \<Rightarrow> JUndefined | Some v \<Rightarrow> v)
      | _ \<Rightarrow> JUndefined)"

definition isMandateRevoked :: "CanonicalEvent list \<Rightarrow> string \<Rightarrow> bool" where
  "isMandateRevoked events mandateId =
     list_ex (\<lambda>evt. e_type evt = ''MANDATE_REVOKE'' \<and>
                    payload_field (e_payload evt) ''mandate_id'' = JStr mandateId) events"

section \<open>Mandates (core types)\<close>

record MandateScope =
  actions :: "string list"
  resources :: "string list"
  max_value :: "int option"
  currency :: "string option"

record MandateValidity =
  not_before :: "string option"
  not_after :: "string option"

record DelegationMandate =
  mandate_id :: MandateId
  issuer :: ActorId
  delegate :: ActorId
  scope :: MandateScope
  validity :: MandateValidity
  constraints :: "json option"
  created_at :: string
  m_signature :: string

subsection \<open>Scope checking\<close>

text \<open>The predicate passed to \<open>some\<close> in \<open>isActionAllowed\<close> and \<open>isResourceAllowed\<close>.\<close>

definition pattern_allows :: "string \<Rightarrow> string \<Rightarrow> bool" where
  "pattern_allows x allowed =
     (allowed = ''*'' \<or> allowed = x \<or>
      (endsWith allowed '':*'' \<and> startsWith x (slice_0_m1 allowed)))"

definition isActionAllowed :: "DelegationMandate \<Rightarrow> string \<Rightarrow> bool" where
  "isActionAllowed mandate action =
     list_ex (pattern_allows action) (actions (scope mandate))"

definition isResourceAllowed :: "DelegationMandate \<Rightarrow> string \<Rightarrow> bool" where
  "isResourceAllowed mandate resource =
     list_ex (pattern_allows resource) (resources (scope mandate))"

definition isWithinBudget :: "DelegationMandate \<Rightarrow> int \<Rightarrow> bool" where
  "isWithinBudget mandate v =
     (case max_value (scope mandate) of
        None \<Rightarrow> True
      | Some b \<Rightarrow> v \<le> b)"

text \<open>A mandate that carries nothing but a scope, for concrete checks.\<close>

definition mandate_with_scope :: "string list \<Rightarrow> string list \<Rightarrow> int option \<Rightarrow> DelegationMandate" where
  "mandate_with_scope acts ress budget =
     \<lparr> mandate_id = ''test-id'', issuer = ''user:test'', delegate = ''agent:test'',
       scope = \<lparr> actions = acts, resources = ress, max_value = budget, currency = None \<rparr>,
       validity = \<lparr> not_before = None, not_after = None \<rparr>,
       constraints = None, created_at = ''2026-01-01T00:00:00.000Z'', m_signature = [] \<rparr>"

subsection \<open>Canonicalize, sign and verify\<close>

definition scope_json :: "MandateScope \<Rightarrow> json" where
  "scope_json sc =
     JObj [(''actions'', JArr (map JStr (actions sc))),
           (''resources'', JArr (map JStr (resources sc))),
           (''max_value'', opt_num (max_value sc)),
           (''currency'', opt_str (currency sc))]"

definition validity_json :: "MandateValidity \<Rightarrow> json" where
  "validity_json v =
     JObj [(''not_before'', opt_str (not_before v)), (''not_after'', opt_str (not_after v))]"

text \<open>The mandate object with the \<open>signature\<close> field removed.\<close>

definition mandate_toSign :: "DelegationMandate \<Rightarrow> json" where
  "mandate_toSign m =
     JObj [(''mandate_id'', JStr (mandate_id m)), (''issuer'', JStr (issuer m)),
           (''delegate'', JStr (delegate m)), (''scope'', scope_json (scope m)),
           (''validity'', validity_json (validity m)),
           (''constraints'', opt_json (constraints m)),
           (''created_at'', JStr (created_at m))]"

definition canonicalizeMandate :: "extlib \<Rightarrow> DelegationMandate \<Rightarrow> error + string" where
  "canonicalizeMandate L mandate =
     (let canonical = canonicalize L (mandate_toSign mandate) in
      if falsy canonical then Inl (Error ''Failed to canonicalize mandate'')
      else Inr (the canonical))"

definition signMandate :: "extlib \<Rightarrow> DelegationMandate \<Rightarrow> InMemoryKeystore \<Rightarrow> KeyId
    \<Rightarrow> error + DelegationMandate" where
  "signMandate L mandate keys signerKeyId =
     (case canonicalizeMandate L mandate of
        Inl e \<Rightarrow> Inl e
      | Inr canonical \<Rightarrow>
          (case ks_sign L keys canonical signerKeyId of
             Inl e \<Rightarrow> Inl e
           | Inr sg \<Rightarrow> Inr (mandate\<lparr> m_signature := sg \<rparr>)))"

text \<open>
  Comparison of two \<open>Date\<close> objects by their time values; an invalid date compares
  false with everything.
\<close>

definition date_gt :: "int option \<Rightarrow> int \<Rightarrow> bool" where
  "date_gt d now = (case d of None \<Rightarrow> False | Some t \<Rightarrow> t > now)"

definition date_lt :: "int option \<Rightarrow> int \<Rightarrow> bool" where
  "date_lt d now = (case d of None \<Rightarrow> False | Some t \<Rightarrow> t < now)"

text \<open>The four checks of \<open>verifyMandate\<close>, each with the messages it pushes.\<close>

definition check_not_before :: "extlib \<Rightarrow> int \<Rightarrow> DelegationMandate \<Rightarrow> string list" where
  "check_not_before L now mandate =
     (case not_before (validity mandate) of
        None \<Rightarrow> []
      | Some s \<Rightarrow>
          if s \<noteq> [] \<and> date_gt (parseDate L s) now
          then [''Mandate not yet valid (not_before: '' @ s @ '')'']
          else [])"

definition check_not_after :: "extlib \<Rightarrow> int \<Rightarrow> DelegationMandate \<Rightarrow> string list" where
  "check_not_after L now mandate =
     (case not_after (validity mandate) of
        None \<Rightarrow> []
      | Some s \<Rightarrow>
          if s \<noteq> [] \<and> date_lt (parseDate L s) now
          then [''Mandate expired (not_after: '' @ s @ '')'']
          else [])"

definition check_revoked :: "DelegationMandate \<Rightarrow> CanonicalEvent list option \<Rightarrow> string list" where
  "check_revoked mandate eventLog =
     (case eventLog of
        None \<Rightarrow> []
      | Some events \<Rightarrow>
          if isMandateRevoked events (mandate_id mandate)
          then [''Mandate has been revoked'']
          else [])"

definition check_signature :: "extlib \<Rightarrow> DelegationMandate \<Rightarrow> InMemoryKeystore
    \<Rightarrow> error + string list" where
  "check_signature L mandate keys =
     (case getPublicKey keys (''ed25519:'' @ issuer mandate) of
        None \<Rightarrow> Inr [''No public key found for issuer: '' @ issuer mandate]
      | Some pk \<Rightarrow>
          (case canonicalizeMandate L mandate of
             Inl e \<Rightarrow> Inl e
           | Inr canonical \<Rightarrow>
               Inr (if ks_verify L (m_signature mandate) canonical pk then []
                    else [''Invalid signature''])))"

text \<open>
  \<open>verifyMandate\<close>; \<open>now\<close> is the time value of \<open>new Date()\<close>, and the event log is
  optional.
\<close>

definition verifyMandate :: "extlib \<Rightarrow> int \<Rightarrow> DelegationMandate \<Rightarrow> InMemoryKeystore
    \<Rightarrow> CanonicalEvent list option \<Rightarrow> error + ValidationResult" where
  "verifyMandate L now mandate keys eventLog =
     (case check_signature L mandate keys of
        Inl e \<Rightarrow> Inl e
      | Inr sigErrors \<Rightarrow>
          (let errs = check_not_before L now mandate @ check_not_after L now mandate @
                      check_revoked mandate eventLog @ sigErrors
           in Inr \<lparr> valid = (errs = []), errors = errs \<rparr>))"

text \<open>\<open>revokeMandate\<close>; \<open>revokedAt\<close>, \<open>eid\<close> and \<open>ts\<close> come from the clock.\<close>

definition revokeMandate :: "extlib \<Rightarrow> string \<Rightarrow> EventId \<Rightarrow> string \<Rightarrow> string \<Rightarrow> string
    \<Rightarrow> ActorId \<Rightarrow> InMemoryKeystore \<Rightarrow> CanonicalEvent list
    \<Rightarrow> error + (EventId \<times> CanonicalEvent list)" where
  "revokeMandate L revokedAt eid ts mandateId reason revokedBy keys events =
     append L eid ts
       \<lparr> pe_type = ''MANDATE_REVOKE'',
         pe_payload = JObj [(''mandate_id'', JStr mandateId), (''reason'', JStr reason),
                            (''revoked_by'', JStr revokedBy), (''revoked_at'', JStr revokedAt)],
         pe_signer = revokedBy \<rparr>
       keys events"

section \<open>Receipt chain (package receipt-chain)\<close>

text \<open>
  \<open>base64urlEncode\<close>: base64, then \<open>+\<close> to \<open>-\<close>, \<open>/\<close> to \<open>_\<close>, and the trailing
  \<open>=\<close> signs removed.
\<close>

definition base64urlEncode :: "extlib \<Rightarrow> string \<Rightarrow> string" where
  "base64urlEncode L bytes =
     rev (dropWhile (\<lambda>c. c = CHR ''='')
       (rev (map (\<lambda>c. if c = CHR ''+'' then CHR ''-'' else if c = CHR ''/'' then CHR ''_'' else c)
                 (base64 L bytes))))"

record ChainedReceipt =
  receiptHash :: string
  receiptId :: string
  previousHash :: string
  c_timestamp :: string
  c_index :: nat

text \<open>The object \<open>chainData\<close> that is hashed; \<open>previousHash\<close> is a string or \<open>null\<close>.\<close>

definition chainData_json :: "string \<Rightarrow> string \<Rightarrow> string option \<Rightarrow> nat \<Rightarrow> string \<Rightarrow> json" where
  "chainData_json rid dataHash prev idx ts =
     JObj [(''receiptId'', JStr rid), (''receiptDataHash'', JStr dataHash),
           (''previousHash'', (case prev of None \<Rightarrow> JNull | Some p \<Rightarrow> JStr p)),
           (''index'', JNum (int idx)), (''timestamp'', JStr ts)]"

text \<open>\<open>addReceipt\<close>; \<open>ts\<close> is the timestamp the call reads from the clock.\<close>

definition addReceipt :: "extlib \<Rightarrow> string \<Rightarrow> string \<Rightarrow> json \<Rightarrow> ChainedReceipt list
    \<Rightarrow> error + (string \<times> ChainedReceipt list)" where
  "addReceipt L ts rid receiptData chain =
     (let prev = (if chain \<noteq> [] then Some (receiptHash (last chain)) else None);
          receiptDataStr = canonicalize L receiptData
      in if falsy receiptDataStr then Inl (Error ''Failed to canonicalize receipt data'')
         else (let chainData = chainData_json rid
                     (base64urlEncode L (sha256 L (the receiptDataStr))) prev (length chain) ts;
                   chainDataStr = canonicalize L chainData
               in if falsy chainDataStr then Inl (Error ''Failed to canonicalize chain data'')
                  else (let rh = base64urlEncode L (sha256 L (the chainDataStr))
                        in Inr (rh, chain @
                             [\<lparr> receiptHash = rh, receiptId = rid,
                                previousHash = (case prev of None \<Rightarrow> rh | Some p \<Rightarrow> p),
                                c_timestamp = ts, c_index = length chain \<rparr>]))))"

text \<open>\<open>Array.prototype.findIndex\<close>; \<open>None\<close> is the result \<open>-1\<close>.\<close>

fun findIndex :: "('a \<Rightarrow> bool) \<Rightarrow> 'a list \<Rightarrow> nat option" where
  "findIndex P [] = None"
| "findIndex P (x # xs) = (if P x then Some 0 else map_option Suc (findIndex P xs))"

definition verifyReceipt :: "extlib \<Rightarrow> string \<Rightarrow> json \<Rightarrow> ChainedReceipt list \<Rightarrow> bool" where
  "verifyReceipt L rid receiptData chain =
     (case findIndex (\<lambda>r. receiptId r = rid) chain of
        None \<Rightarrow> False
      | Some receiptIndex \<Rightarrow>
          (let receipt = chain ! receiptIndex;
               receiptDataStr = canonicalize L receiptData
           in if falsy receiptDataStr then False
              else (let chainData = chainData_json rid
                          (base64urlEncode L (sha256 L (the receiptDataStr)))
                          (Some (if receiptIndex > 0 then receiptHash (chain ! (receiptIndex - 1))
                                 else receiptHash receipt))
                          receiptIndex (c_timestamp receipt);
                        chainDataStr = canonicalize L chainData
                    in if falsy chainDataStr then False
                       else if base64urlEncode L (sha256 L (the chainDataStr)) \<noteq> receiptHash receipt
                       then False
                       else if receiptIndex > 0 \<and>
                               previousHash receipt \<noteq> receiptHash (chain ! (receiptIndex - 1))
                       then False
                       else True)))"

section \<open>Receipts (core)\<close>

record ExecutionReceipt =
  receipt_id :: string
  r_mandate_id :: "MandateId option"
  r_actor :: ActorId
  r_action :: string
  r_request_hash :: string
  r_response_hash :: "string option"
  r_provider_metadata :: "json option"
  r_timestamp :: string
  r_signature :: string
  r_mirror_ref :: string

text \<open>The receipt object with the \<open>signature\<close> field removed.\<close>

definition receipt_toSign :: "ExecutionReceipt \<Rightarrow> json" where
  "receipt_toSign r =
     JObj [(''receipt_id'', JStr (receipt_id r)), (''mandate_id'', opt_str (r_mandate_id r)),
           (''actor'', JStr (r_actor r)), (''action'', JStr (r_action r)),
           (''request_hash'', JStr (r_request_hash r)),
           (''response_hash'', opt_str (r_response_hash r)),
           (''provider_metadata'', opt_json (r_provider_metadata r)),
           (''timestamp'', JStr (r_timestamp r)), (''mirror_ref'', JStr (r_mirror_ref r))]"

text \<open>
  \<open>issueReceipt\<close>; the argument holds the fields of \<open>params\<close>, with \<open>receipt_id\<close> and
  \<open>timestamp\<close> the values the call draws, and an empty signature.
\<close>

definition issueReceipt :: "extlib \<Rightarrow> ExecutionReceipt \<Rightarrow> InMemoryKeystore \<Rightarrow> KeyId
    \<Rightarrow> error + ExecutionReceipt" where
  "issueReceipt L receipt keys signerKeyId =
     (let canonical = canonicalize L (receipt_toSign receipt) in
      if falsy canonical then Inl (Error ''Failed to canonicalize receipt'')
      else (case ks_sign L keys (the canonical) signerKeyId of
              Inl e \<Rightarrow> Inl e
            | Inr sg \<Rightarrow> Inr (receipt\<lparr> r_signature := sg \<rparr>)))"

section \<open>MCP FS adapter\<close>

record ToolAction =
  tool :: string
  arguments :: json

definition action_json :: "ToolAction \<Rightarrow> json" where
  "action_json a = JObj [(''tool'', JStr (tool a)), (''arguments'', arguments a)]"

datatype ProposalStatus = pending | committed | rejected

text \<open>\<open>proposal.status.toUpperCase()\<close>.\<close>

fun status_upper :: "ProposalStatus \<Rightarrow> string" where
  "status_upper pending = ''PENDING''"
| "status_upper committed = ''COMMITTED''"
| "status_upper rejected = ''REJECTED''"

record Proposal =
  p_id :: string
  p_action :: ToolAction
  p_mirrorRef :: string
  p_eventId :: EventId
  p_status :: ProposalStatus
  p_createdAt :: string

record MirrorEntry =
  mi_id :: string
  mi_agentId :: ActorId
  mi_prompt :: string
  mi_request_hash :: string
  mi_timestamp :: string
  mi_provider_metadata :: json

record ExecutionResult =
  x_output :: json
  x_receipt :: ExecutionReceipt

text \<open>
  The state of an adapter. \<open>toolCalls\<close> is not a field of the class: it records, in
  order, the calls the adapter has made to its tool executor (\<open>mcpClient.callTool\<close>).
\<close>

record MCPFSAdapter =
  proposals :: "string \<rightharpoonup> Proposal"
  eventLog :: "CanonicalEvent list"
  keystore :: InMemoryKeystore
  mirror :: "string \<rightharpoonup> MirrorEntry"
  toolCalls :: "(string \<times> json) list"

text \<open>The tool executor: it returns an output or throws.\<close>

type_synonym executor = "string \<Rightarrow> json \<Rightarrow> error + json"

text \<open>\<open>MCPFSClient.callTool\<close>, the executor an adapter gets by default.\<close>

definition MCPFSClient_callTool :: "extlib \<Rightarrow> executor" where
  "MCPFSClient_callTool L toolName args =
     (if toolName \<notin> set [''read_file'', ''write_file'', ''list_directory'']
      then Inl (Error (''Tool not found: '' @ toolName))
      else if toolName = ''read_file''
      then Inr (JStr (''Content of '' @ js_String L (payload_field args ''path'') @ '' (simulated)''))
      else if toolName = ''write_file''
      then Inr (JStr (''Written to '' @ js_String L (payload_field args ''path'')))
      else Inr (JArr [JStr (js_String L (payload_field args ''path'') @ ''/file1.txt''),
                      JStr (js_String L (payload_field args ''path'') @ ''/file2.txt'')]))"

text \<open>\<open>SimpleMirror.captureRequest\<close>; \<open>uuid\<close> and \<open>ts\<close> are drawn by the call.\<close>

definition captureRequest :: "extlib \<Rightarrow> string \<Rightarrow> string \<Rightarrow> ActorId \<Rightarrow> string \<Rightarrow> json
    \<Rightarrow> (string \<rightharpoonup> MirrorEntry) \<Rightarrow> error + (string \<times> string \<times> (string \<rightharpoonup> MirrorEntry))" where
  "captureRequest L uuid ts agentId prompt providerMetadata entries =
     (let mid = ''mirror_'' @ uuid in
      case hashCanonical L (JObj [(''agentId'', JStr agentId), (''prompt'', JStr prompt),
                                  (''providerMetadata'', providerMetadata)]) of
        Inl e \<Rightarrow> Inl e
      | Inr request_hash \<Rightarrow>
          Inr (mid, request_hash,
               entries(mid \<mapsto> \<lparr> mi_id = mid, mi_agentId = agentId, mi_prompt = prompt,
                                 mi_request_hash = request_hash, mi_timestamp = ts,
                                 mi_provider_metadata = providerMetadata \<rparr>)))"

text \<open>
  \<open>EventLog.query\<close>. A filter field that is unset, the empty string or zero is skipped.
\<close>

record EventFilter =
  f_type :: "string option"
  f_signer :: "ActorId option"
  f_limit :: "nat option"
  f_since :: "string option"

definition date_ge :: "int option \<Rightarrow> int option \<Rightarrow> bool" where
  "date_ge a b = (case (a, b) of (Some x, Some y) \<Rightarrow> x \<ge> y | _ \<Rightarrow> False)"

definition query :: "extlib \<Rightarrow> EventFilter \<Rightarrow> CanonicalEvent list \<Rightarrow> CanonicalEvent list" where
  "query L flt events =
     (let r1 = (case f_type flt of
                  None \<Rightarrow> events
                | Some t \<Rightarrow> if t = [] then events else filter (\<lambda>evt. e_type evt = t) events);
          r2 = (case f_signer flt of
                  None \<Rightarrow> r1
                | Some sg \<Rightarrow> if sg = [] then r1 else filter (\<lambda>evt. e_signer evt = sg) r1);
          r3 = (case f_since flt of
                  None \<Rightarrow> r2
                | Some since \<Rightarrow>
                    if since = [] then r2
                    else filter (\<lambda>evt. date_ge (parseDate L (e_timestamp evt)) (parseDate L since)) r2)
      in (case f_limit flt of
            None \<Rightarrow> r3
          | Some n \<Rightarrow> if n = 0 then r3 else take n r3))"

text \<open>The function \<open>isMandateRevoked\<close> of the adapter module (the sovereignty predicate).\<close>

definition adapter_isMandateRevoked :: "extlib \<Rightarrow> string \<Rightarrow> CanonicalEvent list \<Rightarrow> bool" where
  "adapter_isMandateRevoked L mandateId events =
     list_ex (\<lambda>evt. payload_field (e_payload evt) ''mandate_id'' = JStr mandateId)
       (query L \<lparr> f_type = Some ''MANDATE_REVOKE'', f_signer = None, f_limit = None,
                  f_since = None \<rparr> events)"

definition isActionInScope :: "string \<Rightarrow> DelegationMandate \<Rightarrow> bool" where
  "isActionInScope action mandate =
     list_ex (\<lambda>allowed. allowed = ''*'' \<or> allowed = action \<or>
                (endsWith allowed '':*'' \<and> startsWith action (slice_0_m1 allowed)))
       (actions (scope mandate))"

text \<open>The values a call of \<open>propose\<close> draws from the clock and the random generator.\<close>

record ProposeEnv =
  pe_freshKey :: string
  pe_mirrorUuid :: string
  pe_mirrorTs :: string
  pe_eventId :: EventId
  pe_eventTs :: string
  pe_uuid :: string
  pe_createdAt :: string

definition propose :: "extlib \<Rightarrow> ProposeEnv \<Rightarrow> ToolAction \<Rightarrow> ActorId \<Rightarrow> MCPFSAdapter
    \<Rightarrow> (error + Proposal) \<times> MCPFSAdapter" where
  "propose L env action agentId s =
     (let s1 = s\<lparr> keystore := snd (ensureUserKey L (pe_freshKey env) agentId (keystore s)) \<rparr> in
      case captureRequest L (pe_mirrorUuid env) (pe_mirrorTs env) agentId
             (JSON_stringify L (action_json action))
             (JObj [(''adapter'', JStr ''mcp-fs''), (''version'', JStr ''0.1.0''),
                    (''tool'', JStr (tool action))])
             (mirror s1) of
        Inl e \<Rightarrow> (Inl e, s1)
      | Inr (mirrorId, request_hash, entries) \<Rightarrow>
          (let s2 = s1\<lparr> mirror := entries \<rparr> in
           case append L (pe_eventId env) (pe_eventTs env)
                  \<lparr> pe_type = ''SUGGESTION'',
                    pe_payload = JObj [(''mirrorRef'', JStr mirrorId), (''agentId'', JStr agentId),
                                       (''proposedAction'', action_json action),
                                       (''estimatedCost'', JNum 0)],
                    pe_signer = agentId \<rparr>
                  (keystore s2) (eventLog s2) of
             Inl e \<Rightarrow> (Inl e, s2)
           | Inr (suggestionEventId, events) \<Rightarrow>
               (let proposal = \<lparr> p_id = ''proposal_'' @ pe_uuid env, p_action = action,
                                  p_mirrorRef = mirrorId, p_eventId = suggestionEventId,
                                  p_status = pending, p_createdAt = pe_createdAt env \<rparr>
                in (Inr proposal,
                    s2\<lparr> eventLog := events,
                        proposals := (proposals s2)(p_id proposal \<mapsto> proposal) \<rparr>))))"

text \<open>The values a call of \<open>commit\<close> draws from the clock and the random generator.\<close>

record CommitEnv =
  ce_now :: int
  ce_rejectEventId :: EventId
  ce_rejectEventTs :: string
  ce_commitEventId :: EventId
  ce_commitEventTs :: string
  ce_freshKey :: string
  ce_receiptUuid :: string
  ce_receiptTs :: string
  ce_receiptEventId :: EventId
  ce_receiptEventTs :: string

text \<open>
  The \<open>PROPOSAL_REJECTED\<close> event that \<open>recordRejection\<close> appends.
\<close>

definition rejection_event :: "Proposal \<Rightarrow> string \<Rightarrow> string list \<Rightarrow> PartialEvent" where
  "rejection_event proposal reason details =
     \<lparr> pe_type = ''PROPOSAL_REJECTED'',
       pe_payload = JObj [(''proposalId'', JStr (p_id proposal)), (''reason'', JStr reason),
                          (''details'', JArr (map JStr details))],
       pe_signer = ''adapter:mcp-fs'' \<rparr>"

text \<open>
  A failed checkpoint: the proposal is marked rejected, \<open>recordRejection\<close> appends a
  \<open>PROPOSAL_REJECTED\<close> event signed by the adapter, and the error is thrown. When the
  append throws, its error is the one that reaches the caller.
\<close>

definition recordRejection :: "extlib \<Rightarrow> CommitEnv \<Rightarrow> Proposal \<Rightarrow> string \<Rightarrow> string list
    \<Rightarrow> MCPFSAdapter \<Rightarrow> error option \<times> MCPFSAdapter" where
  "recordRejection L env proposal reason details s =
     (case append L (ce_rejectEventId env) (ce_rejectEventTs env)
             (rejection_event proposal reason details) (keystore s) (eventLog s) of
        Inl e \<Rightarrow> (Some e, s)
      | Inr (eid, events) \<Rightarrow> (None, s\<lparr> eventLog := events \<rparr>))"

definition reject_proposal :: "extlib \<Rightarrow> CommitEnv \<Rightarrow> string \<Rightarrow> Proposal \<Rightarrow> string \<Rightarrow> string list
    \<Rightarrow> string \<Rightarrow> MCPFSAdapter \<Rightarrow> (error + ExecutionResult) \<times> MCPFSAdapter" where
  "reject_proposal L env proposalId proposal reason details message s =
     (let s1 = s\<lparr> proposals := (proposals s)(proposalId \<mapsto> proposal\<lparr> p_status := rejected \<rparr>) \<rparr> in
      case recordRejection L env proposal reason details s1 of
        (Some e, s2) \<Rightarrow> (Inl e, s2)
      | (None, s2) \<Rightarrow> (Inl (Error message), s2))"

text \<open>The \<open>COMMITTED\<close> event recorded before execution (step 4 of \<open>commit\<close>).\<close>

definition committed_event :: "Proposal \<Rightarrow> DelegationMandate \<Rightarrow> PartialEvent" where
  "committed_event proposal mandate =
     \<lparr> pe_type = ''COMMITTED'',
       pe_payload = JObj [(''proposalId'', JStr (p_id proposal)),
                          (''mandateId'', JStr (mandate_id mandate)),
                          (''action'', JStr (tool (p_action proposal)))],
       pe_signer = delegate mandate \<rparr>"

text \<open>Steps 4 to 8 of \<open>commit\<close>, taken once all three checkpoints have passed.\<close>

definition commit_execute :: "extlib \<Rightarrow> executor \<Rightarrow> CommitEnv \<Rightarrow> string \<Rightarrow> Proposal
    \<Rightarrow> DelegationMandate \<Rightarrow> MCPFSAdapter \<Rightarrow> (error + ExecutionResult) \<times> MCPFSAdapter" where
  "commit_execute L callTool env proposalId proposal mandate s =
     (case append L (ce_commitEventId env) (ce_commitEventTs env)
             (committed_event proposal mandate) (keystore s) (eventLog s) of
        Inl e \<Rightarrow> (Inl e, s)
      | Inr (eid, events1) \<Rightarrow>
          (let s1 = s\<lparr> eventLog := events1,
                       toolCalls := toolCalls s @ [(tool (p_action proposal), arguments (p_action proposal))] \<rparr>
           in case callTool (tool (p_action proposal)) (arguments (p_action proposal)) of
                Inl e \<Rightarrow> (Inl e, s1)
              | Inr out \<Rightarrow>
                  (let (signerKeyId, keys2) = ensureUserKey L (ce_freshKey env) (issuer mandate) (keystore s1);
                       s2 = s1\<lparr> keystore := keys2 \<rparr>
                   in case hashCanonical L out of
                        Inl e \<Rightarrow> (Inl e, s2)
                      | Inr response_hash \<Rightarrow>
                          (case issueReceipt L
                                  \<lparr> receipt_id = ce_receiptUuid env,
                                    r_mandate_id = Some (mandate_id mandate),
                                    r_actor = ''adapter:mcp-fs'',
                                    r_action = tool (p_action proposal),
                                    r_request_hash = p_mirrorRef proposal,
                                    r_response_hash = Some response_hash,
                                    r_provider_metadata =
                                      Some (JObj [(''attested_by'', JStr (issuer mandate)),
                                                  (''adapter_version'', JStr ''0.1.0'')]),
                                    r_timestamp = ce_receiptTs env,
                                    r_signature = [],
                                    r_mirror_ref = p_mirrorRef proposal \<rparr>
                                  (keystore s2) signerKeyId of
                             Inl e \<Rightarrow> (Inl e, s2)
                           | Inr rcpt \<Rightarrow>
                               (case append L (ce_receiptEventId env) (ce_receiptEventTs env)
                                       \<lparr> pe_type = ''RECEIPT_ISSUED'',
                                         pe_payload = JObj [(''receiptId'', JStr (receipt_id rcpt)),
                                                            (''mandateId'', JStr (mandate_id mandate)),
                                                            (''proposalId'', JStr (p_id proposal))],
                                         pe_signer = issuer mandate \<rparr>
                                       (keystore s2) (eventLog s2) of
                                  Inl e \<Rightarrow> (Inl e, s2)
                                | Inr (eid2, events2) \<Rightarrow>
                                    (Inr \<lparr> x_output = out, x_receipt = rcpt \<rparr>,
                                     s2\<lparr> eventLog := events2,
                                         proposals := (proposals s2)
                                           (proposalId \<mapsto> proposal\<lparr> p_status := committed \<rparr>) \<rparr>))))))"

text \<open>
  \<open>commit\<close> after the lookup: the three enforcement checkpoints in order, then the
  execution.
\<close>

definition commit_gates :: "extlib \<Rightarrow> executor \<Rightarrow> CommitEnv \<Rightarrow> string \<Rightarrow> Proposal
    \<Rightarrow> DelegationMandate \<Rightarrow> MCPFSAdapter \<Rightarrow> (error + ExecutionResult) \<times> MCPFSAdapter" where
  "commit_gates L callTool env proposalId proposal mandate s =
     (case verifyMandate L (ce_now env) mandate (keystore s) (Some (eventLog s)) of
        Inl e \<Rightarrow> (Inl e, s)
      | Inr mandateValid \<Rightarrow>
          if \<not> valid mandateValid
          then reject_proposal L env proposalId proposal ''INVALID_MANDATE''
                 (errors mandateValid)
                 (''INVALID_MANDATE: '' @ join '', '' (errors mandateValid)) s
          else if adapter_isMandateRevoked L (mandate_id mandate) (eventLog s)
          then reject_proposal L env proposalId proposal ''REVOKED_MANDATE''
                 [''Authority no longer valid'']
                 ''REVOKED_MANDATE: Authority no longer valid'' s
          else if \<not> isActionInScope (tool (p_action proposal)) mandate
          then reject_proposal L env proposalId proposal ''SCOPE_VIOLATION''
                 [''Action '' @ [CHR 0x27] @ tool (p_action proposal) @ [CHR 0x27] @
                  '' not permitted by mandate'']
                 ''SCOPE_VIOLATION: Action not permitted by mandate'' s
          else commit_execute L callTool env proposalId proposal mandate s)"

text \<open>\<open>commit\<close>: the lookup of the proposal and of its status, then the checkpoints.\<close>

definition commit :: "extlib \<Rightarrow> executor \<Rightarrow> CommitEnv \<Rightarrow> string \<Rightarrow> DelegationMandate
    \<Rightarrow> MCPFSAdapter \<Rightarrow> (error + ExecutionResult) \<times> MCPFSAdapter" where
  "commit L callTool env proposalId mandate s =
     (case proposals s proposalId of
        None \<Rightarrow> (Inl (Error ''PROPOSAL_NOT_FOUND''), s)
      | Some proposal \<Rightarrow>
          if p_status proposal \<noteq> pending
          then (Inl (Error (''PROPOSAL_'' @ status_upper (p_status proposal) @ '': Cannot commit'')), s)
          else commit_gates L callTool env proposalId proposal mandate s)"

section \<open>Assumptions, histories and invariants\<close>

text \<open>
  What the model assumes of Ed25519 and of the hex codec: a signature made with a private
  key verifies under the public key derived from it, after the round trip through hex.
\<close>

definition sig_correct :: "extlib \<Rightarrow> bool" where
  "sig_correct L =
     (\<forall>d sk sg. ed25519_sign L d sk = Inr sg \<longrightarrow>
        hexToBytes L (bytesToHex L sg) = Inr sg \<and>
        ed25519_verify L sg d (ed25519_getPublicKey L sk) = Inr True)"

text \<open>
  Every stored pair that has a private key holds the public key derived from it, as the
  pairs \<open>ensureUserKey\<close> generates do (\<open>importKeyPair\<close> stores whatever it is given).
\<close>

definition wf_keystore :: "extlib \<Rightarrow> InMemoryKeystore \<Rightarrow> bool" where
  "wf_keystore L keys =
     (\<forall>kid kp sk. keys kid = Some kp \<longrightarrow> privateKey kp = Some sk \<longrightarrow>
        publicKey kp = ed25519_getPublicKey L sk)"

text \<open>
  A log built solely by calls of \<open>append\<close>, starting from a given log: each call with
  the identifier and timestamp it draws and its argument.
\<close>

fun append_all :: "extlib \<Rightarrow> InMemoryKeystore \<Rightarrow> (EventId \<times> string \<times> PartialEvent) list
    \<Rightarrow> CanonicalEvent list \<Rightarrow> error + CanonicalEvent list" where
  "append_all L keys [] events = Inr events"
| "append_all L keys ((eid, ts, event) # rest) events =
     (case append L eid ts event keys events of
        Inl e \<Rightarrow> Inl e
      | Inr (new_id, events') \<Rightarrow> append_all L keys rest events')"

text \<open>
  The properties of a stored log that the event-log claims are about, written out over
  the libraries alone (the canonicalizer, SHA-256, the hex codec and Ed25519), not over
  the functions of the event log or of the keystore.

  \<open>link_ok\<close>: the event at index \<open>i\<close> carries, as \<open>prev_hash\<close>, the hex of the SHA-256
  of the canonical JSON of the entire previous event, signature included.

  \<open>signed_by_signer\<close>: the signature is the hex of the Ed25519 signature made with
  the private key stored under \<open>ed25519:<signer>\<close> over the canonical JSON of the
  event without its signature field.

  \<open>signature_verifies\<close>: the signature decodes from hex, and Ed25519 accepts it for
  the canonical JSON of the event without its signature field under the public key
  stored under \<open>ed25519:<signer>\<close>.

  \<open>canonicalizable\<close>: the entire event has a non-empty canonical form.
\<close>

definition link_ok :: "extlib \<Rightarrow> CanonicalEvent list \<Rightarrow> nat \<Rightarrow> bool" where
  "link_ok L events i =
     (\<exists>c. canonicalize L
            (JObj [(''type'', JStr (e_type (events ! (i - 1)))),
                   (''payload'', e_payload (events ! (i - 1))),
                   (''signer'', JStr (e_signer (events ! (i - 1)))),
                   (''id'', JStr (e_id (events ! (i - 1)))),
                   (''timestamp'', JStr (e_timestamp (events ! (i - 1)))),
                   (''prev_hash'', (case e_prev_hash (events ! (i - 1)) of
                                      None \<Rightarrow> JUndefined | Some h \<Rightarrow> JStr h)),
                   (''signature'', JStr (e_signature (events ! (i - 1))))]) = Some c
          \<and> c \<noteq> []
          \<and> e_prev_hash (events ! i) = Some (bytesToHex L (sha256 L c)))"

definition signed_by_signer :: "extlib \<Rightarrow> InMemoryKeystore \<Rightarrow> CanonicalEvent \<Rightarrow> bool" where
  "signed_by_signer L keys evt =
     (\<exists>c kp sk sg.
          canonicalize L
            (JObj [(''type'', JStr (e_type evt)), (''payload'', e_payload evt),
                   (''signer'', JStr (e_signer evt)), (''id'', JStr (e_id evt)),
                   (''timestamp'', JStr (e_timestamp evt)),
                   (''prev_hash'', (case e_prev_hash evt of
                                      None \<Rightarrow> JUndefined | Some h \<Rightarrow> JStr h))]) = Some c
          \<and> c \<noteq> []
          \<and> keys (''ed25519:'' @ e_signer evt) = Some kp \<and> privateKey kp = Some sk
          \<and> ed25519_sign L c sk = Inr sg
          \<and> e_signature evt = bytesToHex L sg)"

definition signature_verifies :: "extlib \<Rightarrow> InMemoryKeystore \<Rightarrow> CanonicalEvent \<Rightarrow> bool" where
  "signature_verifies L keys evt =
     (\<exists>c kp sigBytes.
          canonicalize L
            (JObj [(''type'', JStr (e_type evt)), (''payload'', e_payload evt),
                   (''signer'', JStr (e_signer evt)), (''id'', JStr (e_id evt)),
                   (''timestamp'', JStr (e_timestamp evt)),
                   (''prev_hash'', (case e_prev_hash evt of
                                      None \<Rightarrow> JUndefined | Some h \<Rightarrow> JStr h))]) = Some c
          \<and> c \<noteq> []
          \<and> keys (''ed25519:'' @ e_signer evt) = Some kp
          \<and> hexToBytes L (e_signature evt) = Inr sigBytes
          \<and> ed25519_verify L sigBytes c (publicKey kp) = Inr True)"

definition canonicalizable :: "extlib \<Rightarrow> CanonicalEvent \<Rightarrow> bool" where
  "canonicalizable L evt =
     (\<exists>c. canonicalize L
            (JObj [(''type'', JStr (e_type evt)), (''payload'', e_payload evt),
                   (''signer'', JStr (e_signer evt)), (''id'', JStr (e_id evt)),
                   (''timestamp'', JStr (e_timestamp evt)),
                   (''prev_hash'', (case e_prev_hash evt of
                                      None \<Rightarrow> JUndefined | Some h \<Rightarrow> JStr h)),
                   (''signature'', JStr (e_signature evt))]) = Some c
          \<and> c \<noteq> [])"

text \<open>
  The invariant of a log built by \<open>append\<close>: the first event has no \<open>prev_hash\<close>,
  every later one is linked to its predecessor, and every event is signed by its signer.
\<close>

definition chain_inv :: "extlib \<Rightarrow> InMemoryKeystore \<Rightarrow> CanonicalEvent list \<Rightarrow> bool" where
  "chain_inv L keys events =
     (\<forall>i < length events.
        (if i = 0 then e_prev_hash (events ! i) = None else link_ok L events i) \<and>
        signed_by_signer L keys (events ! i))"


text \<open>
  The operations that act on an adapter and on the keystore and event log it exposes:
  its own \<open>propose\<close> and \<open>commit\<close>, an \<open>append\<close> to the log by another party (as
  \<open>revokeMandate\<close> does), and key generation or import. Errors leave the effects that
  happened before them.
\<close>

datatype adapter_op =
    Propose ProposeEnv ToolAction ActorId
  | Commit CommitEnv string DelegationMandate
  | Append EventId string PartialEvent
  | EnsureKey string ActorId
  | ImportKey KeyId string "string option"

fun apply_op :: "extlib \<Rightarrow> executor \<Rightarrow> adapter_op \<Rightarrow> MCPFSAdapter \<Rightarrow> MCPFSAdapter" where
  "apply_op L callTool (Propose env action agentId) s = snd (propose L env action agentId s)"
| "apply_op L callTool (Commit env pid mandate) s = snd (commit L callTool env pid mandate s)"
| "apply_op L callTool (Append eid ts event) s =
     (case append L eid ts event (keystore s) (eventLog s) of
        Inl e \<Rightarrow> s
      | Inr (new_id, events) \<Rightarrow> s\<lparr> eventLog := events \<rparr>)"
| "apply_op L callTool (EnsureKey fresh actorId) s =
     s\<lparr> keystore := snd (ensureUserKey L fresh actorId (keystore s)) \<rparr>"
| "apply_op L callTool (ImportKey kid pk sk) s =
     s\<lparr> keystore := importKeyPair kid pk sk (keystore s) \<rparr>"

text \<open>\<open>new MCPFSAdapter(options)\<close> with the keystore and event log it is given.\<close>

definition new_adapter :: "InMemoryKeystore \<Rightarrow> CanonicalEvent list \<Rightarrow> MCPFSAdapter" where
  "new_adapter keys events =
     \<lparr> proposals = Map.empty, eventLog = events, keystore = keys, mirror = Map.empty,
       toolCalls = [] \<rparr>"

definition run :: "extlib \<Rightarrow> executor \<Rightarrow> adapter_op list \<Rightarrow> MCPFSAdapter \<Rightarrow> MCPFSAdapter" where
  "run L callTool ops s = foldl (\<lambda>st op. apply_op L callTool op st) s ops"

text \<open>
  Every proposal of the adapter is stored under its own identifier, and its
  \<open>SUGGESTION\<close> event is in the log.
\<close>

definition suggestion_of :: "Proposal \<Rightarrow> CanonicalEvent \<Rightarrow> bool" where
  "suggestion_of p evt =
     (e_type evt = ''SUGGESTION'' \<and> e_id evt = p_eventId p \<and>
      payload_field (e_payload evt) ''mirrorRef'' = JStr (p_mirrorRef p) \<and>
      payload_field (e_payload evt) ''proposedAction'' = action_json (p_action p))"

definition proposals_logged :: "MCPFSAdapter \<Rightarrow> bool" where
  "proposals_logged s =
     (\<forall>pid p. proposals s pid = Some p \<longrightarrow>
        p_id p = pid \<and> (\<exists>i < length (eventLog s). suggestion_of p (eventLog s ! i)))"

section \<open>A small instance for concrete evaluation\<close>

text \<open>
  A small instance of the external libraries, used only to evaluate the model on
  concrete inputs: a serializer that keeps the order of the keys, the identity as hash
  function, and a signature scheme in which a key pair is twice the same string and a
  signature is the key followed by the first characters of the digest.
\<close>

primrec toy_render :: "json \<Rightarrow> string" where
  "toy_render JUndefined = ''undefined''"
| "toy_render JNull = ''null''"
| "toy_render (JBool b) = (if b then ''true'' else ''false'')"
| "toy_render (JNum n) = (if n < 0 then ''-'' else []) @ string_of_nat (nat \<bar>n\<bar>)"
| "toy_render (JStr s) = ''\"'' @ s @ ''\"''"
| "toy_render (JArr xs) = ''['' @ concat (map toy_render xs) @ '']''"
| "toy_render (JObj kvs) = ''{'' @ concat (map (\<lambda>kv. fst kv @ '':'' @ snd kv @ '','') (map (map_prod id toy_render) kvs)) @ ''}''"

definition toy_lib :: extlib where
  "toy_lib = \<lparr> canonicalize = (\<lambda>j. if j = JUndefined then None else Some (toy_render j)),
       sha256 = (\<lambda>s. s),
       bytesToHex = (\<lambda>s. CHR ''x'' # s),
       hexToBytes = (\<lambda>s. case s of [] \<Rightarrow> Inl (Error ''hex string expected'')
                     | c # r \<Rightarrow> if c = CHR ''x'' then Inr r else Inl (Error ''hex string expected'')),
       ed25519_sign = (\<lambda>d sk. Inr (CHR ''s'' # sk @ take 12 d)),
       ed25519_verify = (\<lambda>sg d pk. case sg of [] \<Rightarrow> Inl (Error ''signature expected'')
                     | c # r \<Rightarrow> if c = CHR ''s'' then Inr (r = pk @ take 12 d)
                                else Inl (Error ''signature expected'')),
       ed25519_getPublicKey = (\<lambda>sk. sk),
       parseDate = (\<lambda>s. if s = ''2026'' then Some 2026 else if s = ''2027'' then Some 2027 else None),
       base64 = (\<lambda>s. s), JSON_stringify = toy_render,
       js_String = (\<lambda>j. case j of JStr s \<Rightarrow> s | _ \<Rightarrow> toy_render j) \<rparr>"

definition toy_keys :: InMemoryKeystore where
  "toy_keys = [''ed25519:user:test'' \<mapsto> \<lparr> keyId = ''ed25519:user:test'', publicKey = ''K1'', privateKey = Some ''K1'' \<rparr>]"

definition toy_calls :: "(EventId \<times> string \<times> PartialEvent) list" where
  "toy_calls =
     [(''evt_1'', ''t1'', \<lparr> pe_type = ''TEST_EVENT_1'', pe_payload = JObj [(''data'', JStr ''first'')], pe_signer = ''user:test'' \<rparr>),
      (''evt_2'', ''t2'', \<lparr> pe_type = ''TEST_EVENT_2'', pe_payload = JObj [(''data'', JStr ''second'')], pe_signer = ''user:test'' \<rparr>)]"

definition toy_tampered :: "CanonicalEvent list" where
  "toy_tampered =
     [\<lparr> e_id = ''evt_1'', e_type = ''TEST_EVENT_1'', e_timestamp = ''t1'',
        e_payload = JObj [(''data'', JStr ''first'')], e_signer = ''user:test'',
        e_signature = ''xsK1'', e_prev_hash = None \<rparr>,
      \<lparr> e_id = ''evt_2'', e_type = ''TEST_EVENT_2'', e_timestamp = ''t2'',
        e_payload = JObj [(''data'', JStr ''second'')], e_signer = ''user:test'',
        e_signature = ''xsK1'', e_prev_hash = Some ''bad'' \<rparr>]"

text \<open>
  A keystore holding, for \<open>user:test\<close>, an imported pair whose public key \<open>K9\<close> is not
  the one derived from its private key \<open>K1\<close>, and the log one \<open>append\<close> builds with it.
\<close>

definition toy_mismatched_keys :: InMemoryKeystore where
  "toy_mismatched_keys = importKeyPair ''ed25519:user:test'' ''K9'' (Some ''K1'') Map.empty"

definition toy_mismatched_log :: "CanonicalEvent list" where
  "toy_mismatched_log =
     [\<lparr> e_id = ''evt_1'', e_type = ''TEST_EVENT_1'', e_timestamp = ''t1'',
        e_payload = JObj [(''data'', JStr ''first'')], e_signer = ''user:test'',
        e_signature = ''xsK1{type:'' @ CHR 0x22 # ''TEST_'', e_prev_hash = None \<rparr>]"

text \<open>A mandate and a log revoking it, for concrete checks.\<close>

definition toy_mandate :: DelegationMandate where
  "toy_mandate =
     \<lparr> mandate_id = ''m-1'', issuer = ''user:test'', delegate = ''adapter:mcp-fs'',
       scope = \<lparr> actions = [''read_file''], resources = [''file:*''], max_value = None,
                 currency = None \<rparr>,
       validity = \<lparr> not_before = Some ''2026'', not_after = Some ''2027'' \<rparr>,
       constraints = None, created_at = ''2026'', m_signature = [] \<rparr>"


text \<open>
  A concrete adapter scenario: the adapter holds the keys of \<open>user:test\<close> and of
  \<open>adapter:mcp-fs\<close>, an agent proposes \<open>read_file\<close>, and the mandate of \<open>user:test\<close>
  is presented at commit.
\<close>

definition toy_adapter_keys :: InMemoryKeystore where
  "toy_adapter_keys = toy_keys(''ed25519:adapter:mcp-fs'' \<mapsto>
      \<lparr> keyId = ''ed25519:adapter:mcp-fs'', publicKey = ''K2'', privateKey = Some ''K2'' \<rparr>)"

definition toy_action :: ToolAction where
  "toy_action = \<lparr> tool = ''read_file'', arguments = JObj [(''path'', JStr ''/tmp/x'')] \<rparr>"

definition toy_penv :: ProposeEnv where
  "toy_penv = \<lparr> pe_freshKey = ''K3'', pe_mirrorUuid = ''u0'', pe_mirrorTs = ''t0'',
      pe_eventId = ''evt_1'', pe_eventTs = ''t1'', pe_uuid = ''u1'', pe_createdAt = ''t1'' \<rparr>"

definition toy_cenv :: CommitEnv where
  "toy_cenv = \<lparr> ce_now = 2026, ce_rejectEventId = ''evt_r'', ce_rejectEventTs = ''tr'',
      ce_commitEventId = ''evt_2'', ce_commitEventTs = ''t2'', ce_freshKey = ''K4'',
      ce_receiptUuid = ''rc1'', ce_receiptTs = ''t3'', ce_receiptEventId = ''evt_3'',
      ce_receiptEventTs = ''t3'' \<rparr>"

definition toy_signed :: DelegationMandate where
  "toy_signed = (case signMandate toy_lib toy_mandate toy_keys ''ed25519:user:test'' of
                   Inl e \<Rightarrow> toy_mandate | Inr m \<Rightarrow> m)"

definition toy_proposal :: Proposal where
  "toy_proposal = \<lparr> p_id = ''proposal_u1'', p_action = toy_action, p_mirrorRef = ''mirror_u0'',
          p_eventId = ''evt_1'', p_status = pending, p_createdAt = ''t1'' \<rparr>"

definition toy_proposed :: MCPFSAdapter where
  "toy_proposed = run toy_lib (MCPFSClient_callTool toy_lib) [Propose toy_penv toy_action ''agent:a'']
      (new_adapter toy_adapter_keys [])"

text \<open>An executor that throws.\<close>

definition toy_failing_exec :: executor where
  "toy_failing_exec toolName args = Inl (Error ''ENOENT'')"

text \<open>
  The environment of a second \<open>commit\<close>, and the adapter after a first \<open>commit\<close> whose
  executor threw.
\<close>

definition toy_cenv2 :: CommitEnv where
  "toy_cenv2 = \<lparr> ce_now = 2026, ce_rejectEventId = ''evt_r2'', ce_rejectEventTs = ''tr2'',
      ce_commitEventId = ''evt_4'', ce_commitEventTs = ''t4'', ce_freshKey = ''K5'',
      ce_receiptUuid = ''rc2'', ce_receiptTs = ''t5'', ce_receiptEventId = ''evt_5'',
      ce_receiptEventTs = ''t5'' \<rparr>"

definition toy_after_failure :: MCPFSAdapter where
  "toy_after_failure =
     snd (commit toy_lib toy_failing_exec toy_cenv ''proposal_u1'' toy_signed toy_proposed)"

text \<open>
  The same scenario with a tool the default client does not know, under a mandate for
  every action; and with the mandate revoked between \<open>propose\<close> and \<open>commit\<close>.
\<close>

definition toy_delete_action :: ToolAction where
  "toy_delete_action = \<lparr> tool = ''delete_file'', arguments = JObj [(''path'', JStr ''/tmp/x'')] \<rparr>"

definition toy_mandate_all :: DelegationMandate where
  "toy_mandate_all = toy_mandate\<lparr> mandate_id := ''m-2'',
      scope := \<lparr> actions = [''*''], resources = [''*''], max_value = None, currency = None \<rparr> \<rparr>"

definition toy_signed_all :: DelegationMandate where
  "toy_signed_all = (case signMandate toy_lib toy_mandate_all toy_keys ''ed25519:user:test'' of
                       Inl e \<Rightarrow> toy_mandate_all | Inr m \<Rightarrow> m)"

definition toy_proposed_delete :: MCPFSAdapter where
  "toy_proposed_delete = run toy_lib (MCPFSClient_callTool toy_lib)
      [Propose toy_penv toy_delete_action ''agent:a''] (new_adapter toy_adapter_keys [])"

definition toy_revoke_event :: PartialEvent where
  "toy_revoke_event =
     \<lparr> pe_type = ''MANDATE_REVOKE'',
       pe_payload = JObj [(''mandate_id'', JStr ''m-1''), (''reason'', JStr ''Agent compromised''),
                          (''revoked_by'', JStr ''user:test''), (''revoked_at'', JStr ''tv'')],
       pe_signer = ''user:test'' \<rparr>"

definition toy_revoked :: MCPFSAdapter where
  "toy_revoked = run toy_lib (MCPFSClient_callTool toy_lib)
      [Propose toy_penv toy_action ''agent:a'', Append ''evt_v'' ''tv'' toy_revoke_event]
      (new_adapter toy_adapter_keys [])"

text \<open>The same adapter without a key for \<open>adapter:mcp-fs\<close>.\<close>

definition toy_revoked_nokey :: MCPFSAdapter where
  "toy_revoked_nokey = run toy_lib (MCPFSClient_callTool toy_lib)
      [Propose toy_penv toy_action ''agent:a'', Append ''evt_v'' ''tv'' toy_revoke_event]
      (new_adapter toy_keys [])"

text \<open>Receipt data for concrete checks of the receipt chain.\<close>

definition toy_receipt_data :: json where
  "toy_receipt_data = JObj [(''amount'', JNum 5), (''vendor'', JStr ''acme'')]"

section \<open>Scope checking: wildcard rules and budget\<close>

lemma endsWith_iff: "endsWith s x \<longleftrightarrow> (\<exists>pre. s = pre @ x)"
proof
  assume "endsWith s x"
  then have "s = take (length s - length x) s @ x"
    unfolding endsWith_def by (metis append_take_drop_id)
  then show "\<exists>pre. s = pre @ x" ..
next
  assume "\<exists>pre. s = pre @ x"
  then show "endsWith s x" unfolding endsWith_def by auto
qed

lemma startsWith_iff: "startsWith s x \<longleftrightarrow> (\<exists>rest. s = x @ rest)"
proof
  assume "startsWith s x"
  then have "s = x @ drop (length x) s"
    unfolding startsWith_def by (metis append_take_drop_id)
  then show "\<exists>rest. s = x @ rest" ..
next
  assume "\<exists>rest. s = x @ rest"
  then show "startsWith s x" unfolding startsWith_def by auto
qed

lemma slice_prefix_star: "slice_0_m1 (pre @ '':*'') = pre @ '':''"
  by (simp add: slice_0_m1_def)

lemma pattern_allows_iff:
  "pattern_allows x p \<longleftrightarrow>
     (p = ''*'' \<or> p = x \<or> (\<exists>pre rest. p = pre @ '':*'' \<and> x = pre @ '':'' @ rest))"
proof -
  have "(endsWith p '':*'' \<and> startsWith x (slice_0_m1 p)) \<longleftrightarrow>
        (\<exists>pre rest. p = pre @ '':*'' \<and> x = pre @ '':'' @ rest)"
  proof
    assume h: "endsWith p '':*'' \<and> startsWith x (slice_0_m1 p)"
    then obtain pre where p: "p = pre @ '':*''" using endsWith_iff by blast
    with h have "startsWith x (pre @ '':'')" by (simp add: slice_prefix_star)
    then obtain rest where "x = (pre @ '':'') @ rest" using startsWith_iff by blast
    with p show "\<exists>pre rest. p = pre @ '':*'' \<and> x = pre @ '':'' @ rest" by auto
  next
    assume "\<exists>pre rest. p = pre @ '':*'' \<and> x = pre @ '':'' @ rest"
    then obtain pre rest where p: "p = pre @ '':*''" and x: "x = pre @ '':'' @ rest" by blast
    have "endsWith p '':*''" using p endsWith_iff by blast
    moreover have "startsWith x (slice_0_m1 p)"
      unfolding p slice_prefix_star using x startsWith_iff[of x "pre @ '':''"] by auto
    ultimately show "endsWith p '':*'' \<and> startsWith x (slice_0_m1 p)" ..
  qed
  then show ?thesis unfolding pattern_allows_def by blast
qed

text \<open>
  Claim C6. \<open>isActionAllowed\<close> is true exactly when some pattern of \<open>scope.actions\<close> is
  \<open>*\<close>, is the action itself, or is \<open>prefix:*\<close> with the action starting with \<open>prefix:\<close>;
  \<open>isResourceAllowed\<close> follows the same rule over \<open>scope.resources\<close>. In particular
  \<open>a:*\<close> matches \<open>a:\<close> and \<open>a:x\<close> but not \<open>a\<close>, \<open>*\<close> matches every action including
  the empty string, and \<open>payment:*\<close> does not match \<open>payments:x\<close>.
\<close>

theorem scope_wildcard_rules:
  "(isActionAllowed m a \<longleftrightarrow>
      (\<exists>p \<in> set (actions (scope m)).
         p = ''*'' \<or> p = a \<or> (\<exists>pre rest. p = pre @ '':*'' \<and> a = pre @ '':'' @ rest)))
   \<and> (isResourceAllowed m r \<longleftrightarrow>
      (\<exists>p \<in> set (resources (scope m)).
         p = ''*'' \<or> p = r \<or> (\<exists>pre rest. p = pre @ '':*'' \<and> r = pre @ '':'' @ rest)))
   \<and> isActionAllowed (mandate_with_scope [''a:*''] rs b) ''a:''
   \<and> isActionAllowed (mandate_with_scope [''a:*''] rs b) ''a:x''
   \<and> \<not> isActionAllowed (mandate_with_scope [''a:*''] rs b) ''a''
   \<and> isActionAllowed (mandate_with_scope [''*''] rs b) a
   \<and> isActionAllowed (mandate_with_scope [''*''] rs b) ''''
   \<and> isActionAllowed (mandate_with_scope [''payment:*''] rs b) ''payment:transfer''
   \<and> isActionAllowed (mandate_with_scope [''payment:*''] rs b) ''payment:refund''
   \<and> \<not> isActionAllowed (mandate_with_scope [''payment:*''] rs b) ''payments:x''
   \<and> isResourceAllowed (mandate_with_scope as [''a:*''] b) ''a:''
   \<and> isResourceAllowed (mandate_with_scope as [''a:*''] b) ''a:x''
   \<and> \<not> isResourceAllowed (mandate_with_scope as [''a:*''] b) ''a''
   \<and> isResourceAllowed (mandate_with_scope as [''*''] b) r
   \<and> \<not> isResourceAllowed (mandate_with_scope as [''payment:*''] b) ''payments:x''"
proof -
  have A: "isActionAllowed m a \<longleftrightarrow>
      (\<exists>p \<in> set (actions (scope m)).
         p = ''*'' \<or> p = a \<or> (\<exists>pre rest. p = pre @ '':*'' \<and> a = pre @ '':'' @ rest))"
    unfolding isActionAllowed_def list_ex_iff pattern_allows_iff ..
  have R: "isResourceAllowed m r \<longleftrightarrow>
      (\<exists>p \<in> set (resources (scope m)).
         p = ''*'' \<or> p = r \<or> (\<exists>pre rest. p = pre @ '':*'' \<and> r = pre @ '':'' @ rest))"
    unfolding isResourceAllowed_def list_ex_iff pattern_allows_iff ..
  have C: "isActionAllowed (mandate_with_scope [''a:*''] rs b) ''a:''"
    "isActionAllowed (mandate_with_scope [''a:*''] rs b) ''a:x''"
    "\<not> isActionAllowed (mandate_with_scope [''a:*''] rs b) ''a''"
    "isActionAllowed (mandate_with_scope [''*''] rs b) a"
    "isActionAllowed (mandate_with_scope [''*''] rs b) ''''"
    "isActionAllowed (mandate_with_scope [''payment:*''] rs b) ''payment:transfer''"
    "isActionAllowed (mandate_with_scope [''payment:*''] rs b) ''payment:refund''"
    "\<not> isActionAllowed (mandate_with_scope [''payment:*''] rs b) ''payments:x''"
    by (simp_all add: isActionAllowed_def mandate_with_scope_def pattern_allows_def
        endsWith_def startsWith_def slice_0_m1_def)
  have D: "isResourceAllowed (mandate_with_scope as [''a:*''] b) ''a:''"
    "isResourceAllowed (mandate_with_scope as [''a:*''] b) ''a:x''"
    "\<not> isResourceAllowed (mandate_with_scope as [''a:*''] b) ''a''"
    "isResourceAllowed (mandate_with_scope as [''*''] b) r"
    "\<not> isResourceAllowed (mandate_with_scope as [''payment:*''] b) ''payments:x''"
    by (simp_all add: isResourceAllowed_def mandate_with_scope_def pattern_allows_def
        endsWith_def startsWith_def slice_0_m1_def)
  from A R C D show ?thesis by blast
qed

theorem scope_wildcard_rules_witness:
  "isActionAllowed (mandate_with_scope [''invoke:model'', ''payment:*''] [''agent:1'', ''merchant:*''] (Some 10000)) ''payment:transfer''
   \<and> \<not> isActionAllowed (mandate_with_scope [''invoke:model'', ''payment:*''] [''agent:1'', ''merchant:*''] (Some 10000)) ''invoke:other''
   \<and> isResourceAllowed (mandate_with_scope [''invoke:model'', ''payment:*''] [''agent:1'', ''merchant:*''] (Some 10000)) ''merchant:123''
   \<and> \<not> isResourceAllowed (mandate_with_scope [''invoke:model'', ''payment:*''] [''agent:1'', ''merchant:*''] (Some 10000)) ''agent:2''"
proof -
  let ?m = "mandate_with_scope [''invoke:model'', ''payment:*''] [''agent:1'', ''merchant:*''] (Some 10000)"
  have acts: "actions (scope ?m) = [''invoke:model'', ''payment:*'']"
    and ress: "resources (scope ?m) = [''agent:1'', ''merchant:*'']"
    by (simp_all add: mandate_with_scope_def)
  note t1 = scope_wildcard_rules[of ?m "''payment:transfer''" "''merchant:123''"]
  note t2 = scope_wildcard_rules[of ?m "''invoke:other''" "''agent:2''"]
  have p1: "''payment:*'' = ''payment'' @ '':*'' \<and> ''payment:transfer'' = ''payment'' @ '':'' @ ''transfer''"
    by simp
  have p2: "''merchant:*'' = ''merchant'' @ '':*'' \<and> ''merchant:123'' = ''merchant'' @ '':'' @ ''123''"
    by simp
  have a1: "isActionAllowed ?m ''payment:transfer''"
    using t1 acts p1 by (metis list.set_intros(1,2))
  have r1: "isResourceAllowed ?m ''merchant:123''"
    using t1 ress p2 by (metis list.set_intros(1,2))
  have n1: "\<not> (\<exists>pre rest. ''invoke:model'' = pre @ '':*'' \<and> ''invoke:other'' = pre @ '':'' @ rest)"
    by (auto simp: append_eq_Cons_conv Cons_eq_append_conv)
  have n2: "\<not> (\<exists>pre rest. ''payment:*'' = pre @ '':*'' \<and> ''invoke:other'' = pre @ '':'' @ rest)"
    by (auto simp: append_eq_Cons_conv Cons_eq_append_conv)
  have a2: "\<not> isActionAllowed ?m ''invoke:other''"
    using t2 acts n1 n2 by simp
  have n3: "\<not> (\<exists>pre rest. ''agent:1'' = pre @ '':*'' \<and> ''agent:2'' = pre @ '':'' @ rest)"
    by (auto simp: append_eq_Cons_conv Cons_eq_append_conv)
  have n4: "\<not> (\<exists>pre rest. ''merchant:*'' = pre @ '':*'' \<and> ''agent:2'' = pre @ '':'' @ rest)"
    by (auto simp: append_eq_Cons_conv Cons_eq_append_conv)
  have r2: "\<not> isResourceAllowed ?m ''agent:2''"
    using t2 ress n3 n4 by simp
  from a1 a2 r1 r2 show ?thesis by blast
qed

text \<open>
  Claim C9. \<open>isWithinBudget\<close> is true exactly when \<open>max_value\<close> is unset or the value is
  at most \<open>max_value\<close>: with \<open>max_value = 0\<close> every positive value fails, with
  \<open>max_value = 10000\<close> the check holds at 10000 and fails at 10001, and with
  \<open>max_value\<close> unset it holds for every value.
\<close>

theorem isWithinBudget_rule:
  "(isWithinBudget m v \<longleftrightarrow>
      (max_value (scope m) = None \<or> (\<exists>b. max_value (scope m) = Some b \<and> v \<le> b)))
   \<and> (max_value (scope m) = Some 0 \<longrightarrow> 0 < v \<longrightarrow> \<not> isWithinBudget m v)
   \<and> (max_value (scope m) = Some 10000 \<longrightarrow>
        isWithinBudget m 10000 \<and> \<not> isWithinBudget m 10001)
   \<and> (max_value (scope m) = None \<longrightarrow> isWithinBudget m v)"
  by (auto simp: isWithinBudget_def split: option.splits)

theorem isWithinBudget_rule_witness:
  "\<not> isWithinBudget (mandate_with_scope [] [] (Some 0)) 1
   \<and> isWithinBudget (mandate_with_scope [] [] (Some 10000)) 10000
   \<and> \<not> isWithinBudget (mandate_with_scope [] [] (Some 10000)) 10001
   \<and> isWithinBudget (mandate_with_scope [] [] None) 123456789"
proof -
  have z: "max_value (scope (mandate_with_scope [] [] (Some 0))) = Some 0"
    and t: "max_value (scope (mandate_with_scope [] [] (Some 10000))) = Some 10000"
    and n: "max_value (scope (mandate_with_scope [] [] None)) = None"
    by (simp_all add: mandate_with_scope_def)
  have p: "(0::int) < 1" by simp
  show ?thesis
    using isWithinBudget_rule[of "mandate_with_scope [] [] (Some 0)" 1] z p
      isWithinBudget_rule[of "mandate_with_scope [] [] (Some 10000)" 0] t
      isWithinBudget_rule[of "mandate_with_scope [] [] None" 123456789] n
    by blast
qed

section \<open>Event log: hash chain and signatures\<close>

lemma falsy_iff: "\<not> falsy c \<longleftrightarrow> (\<exists>s. c = Some s \<and> s \<noteq> [])"
  by (cases c) (auto simp: falsy_def)

lemma hashCanonical_Inr:
  "hashCanonical L j = Inr h \<longleftrightarrow> (\<exists>c. canonicalize L j = Some c \<and> c \<noteq> [] \<and> h = bytesToHex L (sha256 L c))"
  unfolding hashCanonical_def Let_def using falsy_iff[of "canonicalize L j"] by auto

lemma event_toSign_signature [simp]: "event_toSign (e\<lparr> e_signature := sg \<rparr>) = event_toSign e"
  by (simp add: event_toSign_def)

text \<open>
  The four properties in terms of the functions of the source: \<open>link_ok\<close> is about the
  object \<open>hashCanonical\<close> is applied to, \<open>signed_by_signer\<close> is a successful
  \<open>keystore.sign\<close> of the object \<open>append\<close> signs, and \<open>signature_verifies\<close> is a
  successful \<open>keystore.verify\<close> under the public key \<open>getPublicKey\<close> returns.
\<close>

lemma event_json_fields:
  "event_json evt =
     JObj [(''type'', JStr (e_type evt)), (''payload'', e_payload evt),
           (''signer'', JStr (e_signer evt)), (''id'', JStr (e_id evt)),
           (''timestamp'', JStr (e_timestamp evt)),
           (''prev_hash'', (case e_prev_hash evt of None \<Rightarrow> JUndefined | Some h \<Rightarrow> JStr h)),
           (''signature'', JStr (e_signature evt))]"
  by (simp add: event_json_def opt_str_def)

lemma event_toSign_fields:
  "event_toSign evt =
     JObj [(''type'', JStr (e_type evt)), (''payload'', e_payload evt),
           (''signer'', JStr (e_signer evt)), (''id'', JStr (e_id evt)),
           (''timestamp'', JStr (e_timestamp evt)),
           (''prev_hash'', (case e_prev_hash evt of None \<Rightarrow> JUndefined | Some h \<Rightarrow> JStr h))]"
  by (simp add: event_toSign_def opt_str_def)

lemma ks_sign_Inr:
  "ks_sign L keys c kid = Inr s \<longleftrightarrow>
     (\<exists>kp sk sg. keys kid = Some kp \<and> privateKey kp = Some sk \<and>
        ed25519_sign L c sk = Inr sg \<and> s = bytesToHex L sg)"
  unfolding ks_sign_def by (auto split: option.splits sum.splits)

lemma ks_verify_iff:
  "ks_verify L s c pk \<longleftrightarrow>
     (\<exists>sigBytes. hexToBytes L s = Inr sigBytes \<and> ed25519_verify L sigBytes c pk = Inr True)"
  unfolding ks_verify_def by (auto split: sum.splits)

lemma getPublicKey_Some:
  "getPublicKey keys kid = Some pk \<longleftrightarrow> (\<exists>kp. keys kid = Some kp \<and> pk = publicKey kp)"
  unfolding getPublicKey_def by auto

lemma link_ok_event_json:
  "link_ok L events i =
     (\<exists>c. canonicalize L (event_json (events ! (i - 1))) = Some c \<and> c \<noteq> [] \<and>
          e_prev_hash (events ! i) = Some (bytesToHex L (sha256 L c)))"
  unfolding link_ok_def event_json_fields by (rule refl)

lemma canonicalizable_event_json:
  "canonicalizable L evt = (\<not> falsy (canonicalize L (event_json evt)))"
  unfolding falsy_iff canonicalizable_def event_json_fields by (rule refl)

lemma signed_by_signer_ks_sign:
  "signed_by_signer L keys evt =
     (\<exists>c. canonicalize L (event_toSign evt) = Some c \<and> c \<noteq> [] \<and>
          ks_sign L keys c (''ed25519:'' @ e_signer evt) = Inr (e_signature evt))"
  unfolding signed_by_signer_def event_toSign_fields ks_sign_Inr by simp

lemma signature_verifies_ks_verify:
  "signature_verifies L keys evt =
     (\<exists>c pk. canonicalize L (event_toSign evt) = Some c \<and> c \<noteq> [] \<and>
          getPublicKey keys (''ed25519:'' @ e_signer evt) = Some pk \<and>
          ks_verify L (e_signature evt) c pk)"
  unfolding signature_verifies_def event_toSign_fields ks_verify_iff getPublicKey_Some by auto

lemma append_Inr:
  assumes "append L eid ts event keys events = Inr (nid, events')"
  shows "\<exists>evt. events' = events @ [evt] \<and> nid = eid \<and> e_id evt = eid \<and> e_type evt = pe_type event \<and>
           e_timestamp evt = ts \<and> e_payload evt = pe_payload event \<and> e_signer evt = pe_signer event \<and>
           signed_by_signer L keys evt \<and>
           (if events = [] then e_prev_hash evt = None
            else \<exists>h. hashCanonical L (event_json (last events)) = Inr h \<and> e_prev_hash evt = Some h)"
proof -
  define prev where "prev = (if events \<noteq> [] then map_sum id Some (hashCanonical L (event_json (last events)))
            else Inr None)"
  from assms obtain p where p: "prev = Inr p"
    unfolding append_def prev_def[symmetric] by (cases prev) auto
  define full where "full = \<lparr> e_id = eid, e_type = pe_type event, e_timestamp = ts,
                              e_payload = pe_payload event, e_signer = pe_signer event,
                              e_signature = [], e_prev_hash = p \<rparr>"
  from assms have a: "(if falsy (canonicalize L (event_toSign full)) then Inl (Error ''Failed to canonicalize event'')
              else (case ks_sign L keys (the (canonicalize L (event_toSign full))) (''ed25519:'' @ pe_signer event) of
                      Inl e \<Rightarrow> Inl e
                    | Inr sg \<Rightarrow> Inr (eid, events @ [full\<lparr> e_signature := sg \<rparr>]))) = Inr (nid, events')"
    unfolding append_def prev_def[symmetric] p full_def Let_def by simp
  then have nf: "\<not> falsy (canonicalize L (event_toSign full))" by (auto split: if_splits)
  then obtain c where c: "canonicalize L (event_toSign full) = Some c" "c \<noteq> []"
    using falsy_iff by blast
  from a nf c obtain sg where sg: "ks_sign L keys c (''ed25519:'' @ pe_signer event) = Inr sg"
    and r: "nid = eid" "events' = events @ [full\<lparr> e_signature := sg \<rparr>]"
    by (auto split: sum.splits)
  let ?evt = "full\<lparr> e_signature := sg \<rparr>"
  have s: "signed_by_signer L keys ?evt"
    unfolding signed_by_signer_ks_sign using c sg by (simp add: full_def event_toSign_def)
  have pr: "(if events = [] then e_prev_hash ?evt = None
            else \<exists>h. hashCanonical L (event_json (last events)) = Inr h \<and> e_prev_hash ?evt = Some h)"
  proof (cases "events = []")
    case True
    with p show ?thesis unfolding prev_def full_def by simp
  next
    case False
    with p show ?thesis unfolding prev_def full_def
      by (cases "hashCanonical L (event_json (last events))") auto
  qed
  show ?thesis
    by (rule exI[of _ ?evt]) (use r s pr in \<open>simp add: full_def\<close>)
qed

lemma chain_inv_append:
  assumes inv: "chain_inv L keys events"
    and app: "append L eid ts event keys events = Inr (nid, events')"
  shows "chain_inv L keys events'"
proof -
  from append_Inr[OF app] obtain evt where ev: "events' = events @ [evt]"
    and sg: "signed_by_signer L keys evt"
    and pr: "if events = [] then e_prev_hash evt = None
            else \<exists>h. hashCanonical L (event_json (last events)) = Inr h \<and> e_prev_hash evt = Some h"
    by blast
  show ?thesis unfolding chain_inv_def
  proof (intro allI impI)
    fix i assume i: "i < length events'"
    show "(if i = 0 then e_prev_hash (events' ! i) = None else link_ok L events' i) \<and>
        signed_by_signer L keys (events' ! i)"
    proof (cases "i < length events")
      case True
      then have nth: "events' ! i = events ! i" "events' ! (i - 1) = events ! (i - 1)"
        unfolding ev by (simp_all add: nth_append)
      from inv True have "(if i = 0 then e_prev_hash (events ! i) = None else link_ok L events i) \<and>
        signed_by_signer L keys (events ! i)" unfolding chain_inv_def by blast
      then show ?thesis unfolding link_ok_event_json nth by (auto split: if_splits)
    next
      case False
      with i have il: "i = length events" unfolding ev by simp
      then have nth: "events' ! i = evt" unfolding ev by simp
      show ?thesis
      proof (cases "events = []")
        case True
        with pr il nth sg show ?thesis by simp
      next
        case ne: False
        then have prev: "events' ! (i - 1) = last events"
          unfolding ev il by (simp add: nth_append last_conv_nth)
        from ne pr obtain h where h: "e_prev_hash evt = Some h"
          "hashCanonical L (event_json (last events)) = Inr h" by auto
        from ne il have "i \<noteq> 0" by simp
        moreover have "link_ok L events' i"
          unfolding link_ok_event_json prev nth using h hashCanonical_Inr by auto
        ultimately show ?thesis using nth sg by simp
      qed
    qed
  qed
qed

lemma chain_inv_append_all:
  "chain_inv L keys events \<Longrightarrow> append_all L keys calls events = Inr events' \<Longrightarrow> chain_inv L keys events'"
proof (induction calls arbitrary: events)
  case Nil
  then show ?case by simp
next
  case (Cons c calls)
  obtain eid ts event where c: "c = (eid, ts, event)" by (cases c) auto
  from Cons.prems(2) obtain nid ev1 where a: "append L eid ts event keys events = Inr (nid, ev1)"
    and r: "append_all L keys calls ev1 = Inr events'"
    unfolding c by (auto split: sum.splits)
  from chain_inv_append[OF Cons.prems(1) a] Cons.IH r show ?case by blast
qed

lemma chain_inv_empty: "chain_inv L keys []"
  by (simp add: chain_inv_def)

lemma signed_verifies:
  assumes "sig_correct L" "wf_keystore L keys" "signed_by_signer L keys evt"
  shows "signature_verifies L keys evt"
proof -
  from assms(3) obtain c where c: "canonicalize L (event_toSign evt) = Some c" "c \<noteq> []"
    and s: "ks_sign L keys c (''ed25519:'' @ e_signer evt) = Inr (e_signature evt)"
    unfolding signed_by_signer_ks_sign by blast
  from s obtain kp sk sg where kp: "keys (''ed25519:'' @ e_signer evt) = Some kp"
    and sk: "privateKey kp = Some sk" and sg: "ed25519_sign L c sk = Inr sg"
    and es: "e_signature evt = bytesToHex L sg"
    unfolding ks_sign_def by (auto split: option.splits sum.splits)
  from assms(2) kp sk have pk: "publicKey kp = ed25519_getPublicKey L sk"
    unfolding wf_keystore_def by blast
  from assms(1) sg have "hexToBytes L (bytesToHex L sg) = Inr sg"
    "ed25519_verify L sg c (ed25519_getPublicKey L sk) = Inr True"
    unfolding sig_correct_def by blast+
  then have "ks_verify L (e_signature evt) c (publicKey kp)"
    unfolding ks_verify_def es pk by simp
  with c kp show ?thesis unfolding signature_verifies_ks_verify getPublicKey_def by auto
qed

lemma verifyChain_continuity_Inr_Nil:
  "verifyChain_continuity L events i = Inr [] \<longleftrightarrow> (0 < i \<longrightarrow> link_ok L events i)"
proof (cases "0 < i")
  case False
  then show ?thesis by (simp add: verifyChain_continuity_def)
next
  case True
  show ?thesis
  proof (cases "hashCanonical L (event_json (events ! (i - 1)))")
    case (Inl e)
    then have "\<not> link_ok L events i"
      unfolding link_ok_event_json using hashCanonical_Inr[of L "event_json (events ! (i - 1))"] by auto
    with True Inl show ?thesis by (simp add: verifyChain_continuity_def Let_def)
  next
    case (Inr h)
    then obtain c where c: "canonicalize L (event_json (events ! (i - 1))) = Some c" "c \<noteq> []"
      "h = bytesToHex L (sha256 L c)" using hashCanonical_Inr by blast
    then have "link_ok L events i \<longleftrightarrow> e_prev_hash (events ! i) = Some h"
      unfolding link_ok_event_json by auto
    with True Inr show ?thesis by (simp add: verifyChain_continuity_def Let_def)
  qed
qed

lemma verifyChain_signature_Nil:
  "verifyChain_signature L keys evt = [] \<longleftrightarrow> signature_verifies L keys evt"
proof (cases "falsy (canonicalize L (event_toSign evt))")
  case True
  then have "\<not> signature_verifies L keys evt"
    unfolding signature_verifies_ks_verify using falsy_iff by auto
  with True show ?thesis by (simp add: verifyChain_signature_def)
next
  case False
  then obtain c where c: "canonicalize L (event_toSign evt) = Some c" "c \<noteq> []"
    using falsy_iff by blast
  with False show ?thesis
    unfolding verifyChain_signature_def signature_verifies_ks_verify
    by (auto split: option.splits)
qed

lemma verifyChain_step_Inr_Nil:
  "verifyChain_step L keys events i = Inr [] \<longleftrightarrow>
     (0 < i \<longrightarrow> link_ok L events i) \<and> signature_verifies L keys (events ! i)"
proof (cases "verifyChain_continuity L events i")
  case (Inl e)
  with verifyChain_continuity_Inr_Nil[of L events i] show ?thesis
    by (simp add: verifyChain_step_def)
next
  case (Inr ce)
  with verifyChain_continuity_Inr_Nil[of L events i]
    verifyChain_signature_Nil[of L keys "events ! i"]
  show ?thesis by (simp add: verifyChain_step_def)
qed

lemma verifyChain_loop_Inr:
  "verifyChain_loop L keys events idxs errs = Inr r \<Longrightarrow>
     (r = [] \<longleftrightarrow> errs = [] \<and> (\<forall>i \<in> set idxs. verifyChain_step L keys events i = Inr []))"
proof (induction idxs arbitrary: errs)
  case Nil
  then show ?case by auto
next
  case (Cons i idxs)
  from Cons.prems obtain new where n: "verifyChain_step L keys events i = Inr new"
    and r: "verifyChain_loop L keys events idxs (errs @ new) = Inr r"
    by (auto split: sum.splits)
  from Cons.IH[OF r] n show ?case by auto
qed

lemma verifyChain_loop_all_ok:
  "\<forall>i \<in> set idxs. verifyChain_step L keys events i = Inr [] \<Longrightarrow>
     verifyChain_loop L keys events idxs errs = Inr errs"
  by (induction idxs arbitrary: errs) auto

lemma verifyChain_loop_total:
  "\<forall>i \<in> set idxs. \<exists>new. verifyChain_step L keys events i = Inr new \<Longrightarrow>
     \<exists>r. verifyChain_loop L keys events idxs errs = Inr r"
proof (induction idxs arbitrary: errs)
  case Nil
  then show ?case by simp
next
  case (Cons i idxs)
  then obtain new where "verifyChain_step L keys events i = Inr new" by auto
  with Cons show ?case by auto
qed

lemma verifyChain_step_total:
  "(0 < i \<longrightarrow> \<not> falsy (canonicalize L (event_json (events ! (i - 1))))) \<Longrightarrow>
     \<exists>new. verifyChain_step L keys events i = Inr new"
  unfolding verifyChain_step_def verifyChain_continuity_def Let_def hashCanonical_def
  by (auto split: sum.splits)

lemma verifyChain_Inr:
  assumes "verifyChain L ks es = Inr r"
  shows "eventsVerified r = length es \<and>
         (valid r \<longleftrightarrow> (\<forall>i < length es. (0 < i \<longrightarrow> link_ok L es i) \<and> signature_verifies L ks (es ! i)))"
proof -
  from assms obtain errs where l: "verifyChain_loop L ks es [0..<length es] [] = Inr errs"
    and r: "r = \<lparr> valid = (errs = []), errors = errs, eventsVerified = length es \<rparr>"
    unfolding verifyChain_def by (auto split: sum.splits)
  from verifyChain_loop_Inr[OF l] have "errs = [] \<longleftrightarrow> (\<forall>i < length es. verifyChain_step L ks es i = Inr [])"
    by auto
  then show ?thesis unfolding r verifyChain_step_Inr_Nil by simp
qed

lemma verifyChain_total:
  assumes "\<forall>i. Suc i < length es \<longrightarrow> \<not> falsy (canonicalize L (event_json (es ! i)))"
  shows "\<exists>r. verifyChain L ks es = Inr r"
proof -
  have "\<forall>i \<in> set [0..<length es]. \<exists>new. verifyChain_step L ks es i = Inr new"
  proof
    fix i assume "i \<in> set [0..<length es]"
    then have i: "i < length es" by simp
    have "0 < i \<longrightarrow> \<not> falsy (canonicalize L (event_json (es ! (i - 1))))"
    proof
      assume "0 < i"
      with i have "Suc (i - 1) < length es" by simp
      with assms show "\<not> falsy (canonicalize L (event_json (es ! (i - 1))))" by blast
    qed
    then show "\<exists>new. verifyChain_step L ks es i = Inr new" by (rule verifyChain_step_total)
  qed
  from verifyChain_loop_total[OF this] obtain r where "verifyChain_loop L ks es [0..<length es] [] = Inr r"
    by blast
  then show ?thesis unfolding verifyChain_def by simp
qed

lemma chain_inv_verifyChain:
  assumes "sig_correct L" "wf_keystore L keys" "chain_inv L keys events"
  shows "verifyChain L keys events = Inr \<lparr> valid = True, errors = [], eventsVerified = length events \<rparr>"
proof -
  have "\<forall>i \<in> set [0..<length events]. verifyChain_step L keys events i = Inr []"
  proof
    fix i assume "i \<in> set [0..<length events]"
    then have i: "i < length events" by simp
    with assms(3) have a: "(if i = 0 then e_prev_hash (events ! i) = None else link_ok L events i)"
      and b: "signed_by_signer L keys (events ! i)" unfolding chain_inv_def by blast+
    from a have "0 < i \<longrightarrow> link_ok L events i" by (auto split: if_splits)
    moreover from signed_verifies[OF assms(1,2) b] have "signature_verifies L keys (events ! i)" .
    ultimately show "verifyChain_step L keys events i = Inr []"
      unfolding verifyChain_step_Inr_Nil by blast
  qed
  from verifyChain_loop_all_ok[OF this]
  show ?thesis unfolding verifyChain_def by simp
qed

lemma append_all_length:
  "append_all L keys calls events = Inr events' \<Longrightarrow> length events' = length events + length calls"
proof (induction calls arbitrary: events)
  case Nil
  then show ?case by simp
next
  case (Cons c calls)
  obtain eid ts event where c: "c = (eid, ts, event)" by (cases c) auto
  from Cons.prems obtain nid ev1 where a: "append L eid ts event keys events = Inr (nid, ev1)"
    and r: "append_all L keys calls ev1 = Inr events'"
    unfolding c by (auto split: sum.splits)
  from append_Inr[OF a] have "length ev1 = Suc (length events)" by auto
  with Cons.IH[OF r] show ?case by simp
qed

lemmas chain_defs = append_def hashCanonical_def falsy_def toy_lib_def
      ks_sign_def event_toSign_def event_json_def opt_str_def Let_def verifyChain_def
      verifyChain_step_def verifyChain_continuity_def verifyChain_signature_def
      getPublicKey_def ks_verify_def importKeyPair_def

text \<open>
  Claim C2, as stated, fails at a keystore that holds a key for the signer whose public
  half does not belong to its private half (\<open>importKeyPair\<close> stores whatever it is
  given). The log is built by one \<open>append\<close> call, the signer has a key in the keystore,
  and \<open>verifyChain\<close> against that keystore returns \<open>valid = false\<close> with the error
  \<open>Event evt_1: Invalid signature\<close>.
\<close>

theorem event_log_chain_mismatched_key_pair:
  "append_all toy_lib toy_mismatched_keys
      [(''evt_1'', ''t1'', \<lparr> pe_type = ''TEST_EVENT_1'', pe_payload = JObj [(''data'', JStr ''first'')],
                            pe_signer = ''user:test'' \<rparr>)] [] = Inr toy_mismatched_log
   \<and> verifyChain toy_lib toy_mismatched_keys toy_mismatched_log
       = Inr \<lparr> valid = False, errors = [''Event evt_1: Invalid signature''], eventsVerified = 1 \<rparr>"
  by (simp add: toy_mismatched_keys_def toy_mismatched_log_def chain_defs)

text \<open>
  Claim C2, amended. For a log built solely by \<open>append\<close> calls that succeed against a
  keystore (so the signers have private keys in it): the log has one event per call, the
  first event has no \<open>prev_hash\<close>, every later event carries the hex of the SHA-256 of
  the canonical JSON of the entire previous event (signature included), and every
  signature is the one made with the signer's stored private key over the canonical
  JSON of the event without its signature field. When moreover every stored key pair is
  a matching pair (the public key is the one derived from the private key, as in the
  pairs \<open>ensureUserKey\<close> generates) and Ed25519 accepts the signatures it makes, every
  signature verifies and \<open>verifyChain\<close> against that keystore returns \<open>valid = true\<close>,
  no errors, and \<open>eventsVerified\<close> the length of the log. For any stored log and
  keystore, a result of \<open>verifyChain\<close> counts every event and is valid exactly when
  every \<open>prev_hash\<close> and every signature matches, so it is \<open>valid = false\<close> whenever
  one does not; and \<open>verifyChain\<close> returns a result whenever the events before the
  last have canonical forms.
\<close>

theorem event_log_chain:
  "(append_all L keys calls [] = Inr events \<longrightarrow>
      length events = length calls
      \<and> (events \<noteq> [] \<longrightarrow> e_prev_hash (events ! 0) = None)
      \<and> (\<forall>i. 0 < i \<and> i < length events \<longrightarrow> link_ok L events i)
      \<and> (\<forall>i < length events. signed_by_signer L keys (events ! i))
      \<and> (sig_correct L \<and> wf_keystore L keys \<longrightarrow>
           (\<forall>i < length events. signature_verifies L keys (events ! i))
           \<and> verifyChain L keys events =
               Inr \<lparr> valid = True, errors = [], eventsVerified = length events \<rparr>))
   \<and> (\<forall>r. verifyChain L ks es = Inr r \<longrightarrow>
        eventsVerified r = length es \<and>
        (valid r \<longleftrightarrow> (\<forall>i < length es. (0 < i \<longrightarrow> link_ok L es i) \<and> signature_verifies L ks (es ! i))))
   \<and> ((\<forall>i. Suc i < length es \<longrightarrow> canonicalizable L (es ! i)) \<longrightarrow>
        (\<exists>r. verifyChain L ks es = Inr r))"
proof (intro conjI impI allI)
  assume h: "append_all L keys calls [] = Inr events"
  then have inv: "chain_inv L keys events"
    using chain_inv_append_all[OF chain_inv_empty] by blast
  from h show "length events = length calls" using append_all_length by fastforce
  { assume "events \<noteq> []"
    then have "0 < length events" by simp
    with inv show "e_prev_hash (events ! 0) = None" unfolding chain_inv_def by force }
  { fix i assume "0 < i \<and> i < length events"
    with inv show "link_ok L events i" unfolding chain_inv_def by force }
  { fix i assume "i < length events"
    with inv show "signed_by_signer L keys (events ! i)" unfolding chain_inv_def by blast }
  { assume a: "sig_correct L \<and> wf_keystore L keys"
    with inv show "verifyChain L keys events = Inr \<lparr> valid = True, errors = [], eventsVerified = length events \<rparr>"
      using chain_inv_verifyChain by blast
    fix i assume "i < length events"
    with inv have "signed_by_signer L keys (events ! i)" unfolding chain_inv_def by blast
    with a show "signature_verifies L keys (events ! i)" using signed_verifies by blast }
next
  fix r assume "verifyChain L ks es = Inr r"
  from verifyChain_Inr[OF this] show "eventsVerified r = length es" 
    "valid r \<longleftrightarrow> (\<forall>i < length es. (0 < i \<longrightarrow> link_ok L es i) \<and> signature_verifies L ks (es ! i))"
    by blast+
next
  assume "\<forall>i. Suc i < length es \<longrightarrow> canonicalizable L (es ! i)"
  then show "\<exists>r. verifyChain L ks es = Inr r"
    unfolding canonicalizable_event_json by (rule verifyChain_total)
qed

lemma toy_append_all: "\<exists>events. append_all toy_lib toy_keys toy_calls [] = Inr events"
  by (simp add: toy_calls_def append_def hashCanonical_def falsy_def toy_lib_def toy_keys_def
      ks_sign_def event_toSign_def event_json_def opt_str_def Let_def)

theorem event_log_chain_witness:
  "\<exists>events. append_all toy_lib toy_keys toy_calls [] = Inr events \<and> length events = 2 \<and>
      e_prev_hash (events ! 0) = None \<and> e_prev_hash (events ! 1) \<noteq> None \<and>
      link_ok toy_lib events 1 \<and>
      signed_by_signer toy_lib toy_keys (events ! 0) \<and> signed_by_signer toy_lib toy_keys (events ! 1) \<and>
      signature_verifies toy_lib toy_keys (events ! 0) \<and> signature_verifies toy_lib toy_keys (events ! 1) \<and>
      verifyChain toy_lib toy_keys events = Inr \<lparr> valid = True, errors = [], eventsVerified = 2 \<rparr> \<and>
      (\<exists>r. verifyChain toy_lib toy_keys toy_tampered = Inr r \<and> \<not> valid r \<and> eventsVerified r = 2)"
proof -
  have sc: "sig_correct toy_lib"
    by (simp add: sig_correct_def toy_lib_def)
  have wf: "wf_keystore toy_lib toy_keys"
    by (simp add: wf_keystore_def toy_lib_def toy_keys_def)
  obtain events where ev: "append_all toy_lib toy_keys toy_calls [] = Inr events"
    using toy_append_all by blast
  note A = event_log_chain[of toy_lib toy_keys toy_calls events toy_keys toy_tampered]
  from A ev have len: "length events = 2" by (simp add: toy_calls_def)
  then have ne: "events \<noteq> []" and i0: "0 < length events" and i1: "1 < length events" by auto
  from A ev ne have p0: "e_prev_hash (events ! 0) = None" by blast
  from A ev i1 have l1: "link_ok toy_lib events 1" by simp
  then have p1: "e_prev_hash (events ! 1) \<noteq> None" unfolding link_ok_def by auto
  from A ev have sb: "\<forall>i < length events. signed_by_signer toy_lib toy_keys (events ! i)" by blast
  from A ev sc wf have sv: "\<forall>i < length events. signature_verifies toy_lib toy_keys (events ! i)" by blast
  from sb i0 i1 have s01: "signed_by_signer toy_lib toy_keys (events ! 0)"
    "signed_by_signer toy_lib toy_keys (events ! 1)" by blast+
  from sv i0 i1 have v01: "signature_verifies toy_lib toy_keys (events ! 0)"
    "signature_verifies toy_lib toy_keys (events ! 1)" by blast+
  from A ev sc wf have "verifyChain toy_lib toy_keys events =
      Inr \<lparr> valid = True, errors = [], eventsVerified = length events \<rparr>" by blast
  with len have v: "verifyChain toy_lib toy_keys events = Inr \<lparr> valid = True, errors = [], eventsVerified = 2 \<rparr>"
    by simp
  have can: "\<forall>i. Suc i < length toy_tampered \<longrightarrow> canonicalizable toy_lib (toy_tampered ! i)"
    by (simp add: toy_lib_def canonicalizable_def)
  with A obtain r where r: "verifyChain toy_lib toy_keys toy_tampered = Inr r" by blast
  have t1: "\<not> link_ok toy_lib toy_tampered 1"
    by (simp add: link_ok_def toy_tampered_def toy_lib_def)
  have "1 < length toy_tampered" by (simp add: toy_tampered_def)
  with t1 have "\<not> (\<forall>i < length toy_tampered. (0 < i \<longrightarrow> link_ok toy_lib toy_tampered i) \<and>
      signature_verifies toy_lib toy_keys (toy_tampered ! i))" by force
  with A r have nv: "\<not> valid r" by blast
  have "eventsVerified r = 2" using A r by (simp add: toy_tampered_def)
  with ev len p0 p1 l1 s01 v01 v r nv show ?thesis by blast
qed

section \<open>Keystore: failure semantics\<close>

text \<open>
  Claim C8, as stated, at a key identifier that is not in the keystore: \<open>sign\<close> does
  not fail with an error called \<open>MissingPrivateKey\<close>. The error thrown is a plain
  \<open>Error\<close> whose message is \<open>Key not found or private key unavailable: \<close> followed
  by the key identifier; the message is not the string \<open>MissingPrivateKey\<close> and does
  not start with it.
\<close>

theorem keystore_sign_error_not_MissingPrivateKey:
  "ks_sign toy_lib toy_keys ''digest'' ''ed25519:user:nobody''
      = Inl (Error ''Key not found or private key unavailable: ed25519:user:nobody'')
   \<and> ks_sign toy_lib toy_keys ''digest'' ''ed25519:user:nobody'' \<noteq> Inl (Error ''MissingPrivateKey'')
   \<and> \<not> startsWith ''Key not found or private key unavailable: ed25519:user:nobody'' ''MissingPrivateKey''"
  by (simp add: ks_sign_def toy_keys_def startsWith_def)

text \<open>
  Claim C8, amended. For every key identifier that is not in the keystore, and for
  every stored key without a private component, \<open>sign\<close> fails with the
  \<open>Error\<close> whose message is \<open>Key not found or private key unavailable: \<close> followed
  by the key identifier, whatever the digest. \<open>verify\<close> turns every decoding error,
  from the hex decoder or from the signature check, into the result \<open>false\<close>; its
  result is a boolean, never an error; when nothing is thrown it is the answer of
  the signature check.
\<close>

theorem keystore_failure_semantics:
  "(keys kid = None \<longrightarrow>
      ks_sign L keys digest kid = Inl (Error (''Key not found or private key unavailable: '' @ kid)))
   \<and> (\<forall>kp. keys kid = Some kp \<and> privateKey kp = None \<longrightarrow>
          ks_sign L keys digest kid = Inl (Error (''Key not found or private key unavailable: '' @ kid)))
   \<and> (\<forall>e. hexToBytes L sg = Inl e \<longrightarrow> ks_verify L sg digest pk = False)
   \<and> (\<forall>sigBytes e. hexToBytes L sg = Inr sigBytes \<and> ed25519_verify L sigBytes digest pk = Inl e \<longrightarrow>
          ks_verify L sg digest pk = False)
   \<and> (\<forall>sigBytes ok. hexToBytes L sg = Inr sigBytes \<and> ed25519_verify L sigBytes digest pk = Inr ok \<longrightarrow>
          ks_verify L sg digest pk = ok)"
  by (auto simp: ks_sign_def ks_verify_def)

theorem keystore_failure_semantics_witness:
  "ks_sign toy_lib toy_keys ''digest'' ''ed25519:user:nobody''
       = Inl (Error ''Key not found or private key unavailable: ed25519:user:nobody'')
   \<and> ks_sign toy_lib (importKeyPair ''ed25519:user:pub'' ''K2'' None toy_keys) ''digest'' ''ed25519:user:pub''
       = Inl (Error ''Key not found or private key unavailable: ed25519:user:pub'')
   \<and> ks_verify toy_lib ''not-hex'' ''digest'' ''K1'' = False
   \<and> ks_verify toy_lib ''xq'' ''digest'' ''K1'' = False
   \<and> ks_verify toy_lib ''xsK1digest'' ''digest'' ''K1'' = True"
proof -
  have a: "toy_keys ''ed25519:user:nobody'' = None" by (simp add: toy_keys_def)
  have b: "importKeyPair ''ed25519:user:pub'' ''K2'' None toy_keys ''ed25519:user:pub'' =
        Some \<lparr> keyId = ''ed25519:user:pub'', publicKey = ''K2'', privateKey = None \<rparr>
      \<and> privateKey \<lparr> keyId = ''ed25519:user:pub'', publicKey = ''K2'', privateKey = None \<rparr> = None"
    by (simp add: importKeyPair_def)
  have c: "hexToBytes toy_lib ''not-hex'' = Inl (Error ''hex string expected'')"
    by (simp add: toy_lib_def)
  have d: "hexToBytes toy_lib ''xq'' = Inr ''q'' \<and>
           ed25519_verify toy_lib ''q'' ''digest'' ''K1'' = Inl (Error ''signature expected'')"
    by (simp add: toy_lib_def)
  have e: "hexToBytes toy_lib ''xsK1digest'' = Inr ''sK1digest'' \<and>
           ed25519_verify toy_lib ''sK1digest'' ''digest'' ''K1'' = Inr True"
    by (simp add: toy_lib_def)
  from a keystore_failure_semantics[of toy_keys "''ed25519:user:nobody''" toy_lib "''digest''"]
  have 1: "ks_sign toy_lib toy_keys ''digest'' ''ed25519:user:nobody''
       = Inl (Error ''Key not found or private key unavailable: ed25519:user:nobody'')"
    by simp
  from b keystore_failure_semantics[of "importKeyPair ''ed25519:user:pub'' ''K2'' None toy_keys"
      "''ed25519:user:pub''" toy_lib "''digest''"]
  have 2: "ks_sign toy_lib (importKeyPair ''ed25519:user:pub'' ''K2'' None toy_keys) ''digest'' ''ed25519:user:pub''
       = Inl (Error ''Key not found or private key unavailable: ed25519:user:pub'')"
    by simp
  from c keystore_failure_semantics[of toy_keys "''k''" toy_lib "''digest''" "''not-hex''" "''K1''"]
  have 3: "ks_verify toy_lib ''not-hex'' ''digest'' ''K1'' = False" by blast
  from d keystore_failure_semantics[of toy_keys "''k''" toy_lib "''digest''" "''xq''" "''K1''"]
  have 4: "ks_verify toy_lib ''xq'' ''digest'' ''K1'' = False" by blast
  from e keystore_failure_semantics[of toy_keys "''k''" toy_lib "''digest''" "''xsK1digest''" "''K1''"]
  have 5: "ks_verify toy_lib ''xsK1digest'' ''digest'' ''K1'' = True" by blast
  from 1 2 3 4 5 show ?thesis by blast
qed

section \<open>Mandates: sign, then verify\<close>

lemma wf_keystore_empty: "wf_keystore L Map.empty"
  by (simp add: wf_keystore_def)

lemma wf_keystore_ensureUserKey:
  "wf_keystore L keys \<Longrightarrow> wf_keystore L (snd (ensureUserKey L fresh actorId keys))"
  unfolding wf_keystore_def ensureUserKey_def Let_def by auto

lemma ensureUserKey_idempotent:
  "ensureUserKey L fresh' actorId (snd (ensureUserKey L fresh actorId keys)) =
     ensureUserKey L fresh actorId keys"
  unfolding ensureUserKey_def Let_def by auto


lemma mandate_toSign_signature [simp]: "mandate_toSign (m\<lparr> m_signature := sg \<rparr>) = mandate_toSign m"
  by (simp add: mandate_toSign_def)








section \<open>Adapter: effects of propose and commit\<close>

lemma recordRejection_effect:
  assumes "recordRejection L env proposal reason details s = (r, s')"
  shows "proposals s' = proposals s \<and> keystore s' = keystore s \<and> toolCalls s' = toolCalls s \<and>
         (case r of
            Some e \<Rightarrow> eventLog s' = eventLog s
          | None \<Rightarrow> \<exists>evt. eventLog s' = eventLog s @ [evt] \<and> e_type evt = ''PROPOSAL_REJECTED'' \<and>
               e_signer evt = ''adapter:mcp-fs'' \<and>
               e_payload evt = JObj [(''proposalId'', JStr (p_id proposal)), (''reason'', JStr reason),
                                  (''details'', JArr (map JStr details))])"
proof (cases "append L (ce_rejectEventId env) (ce_rejectEventTs env)
             (rejection_event proposal reason details) (keystore s) (eventLog s)")
  case (Inl e)
  with assms show ?thesis unfolding recordRejection_def by auto
next
  case (Inr x)
  obtain eid events where x: "x = (eid, events)" by (cases x)
  from append_Inr[OF Inr[unfolded x]] obtain evt where "events = eventLog s @ [evt]"
    "e_type evt = ''PROPOSAL_REJECTED''" "e_signer evt = ''adapter:mcp-fs''"
    "e_payload evt = JObj [(''proposalId'', JStr (p_id proposal)), (''reason'', JStr reason),
                                  (''details'', JArr (map JStr details))]"
    unfolding rejection_event_def by auto
  with assms Inr x show ?thesis unfolding recordRejection_def by auto
qed

lemma reject_proposal_effect:
  assumes "reject_proposal L env pid proposal reason details message s = (r, s')"
  shows "(\<exists>e. r = Inl e) \<and> proposals s' = (proposals s)(pid \<mapsto> proposal\<lparr> p_status := rejected \<rparr>) \<and>
         keystore s' = keystore s \<and> toolCalls s' = toolCalls s \<and>
         (\<exists>ext. eventLog s' = eventLog s @ ext)"
proof -
  let ?s1 = "s\<lparr> proposals := (proposals s)(pid \<mapsto> proposal\<lparr> p_status := rejected \<rparr>) \<rparr>"
  obtain ro s2 where rr: "recordRejection L env proposal reason details ?s1 = (ro, s2)"
    by (cases "recordRejection L env proposal reason details ?s1")
  from assms rr have r: "s' = s2" "\<exists>e. r = Inl e"
    unfolding reject_proposal_def Let_def by (auto split: option.splits)
  from recordRejection_effect[OF rr] have "proposals s2 = proposals ?s1" "keystore s2 = keystore ?s1"
    "toolCalls s2 = toolCalls ?s1" "\<exists>ext. eventLog s2 = eventLog ?s1 @ ext"
    by (auto split: option.splits)
  with r show ?thesis by simp
qed

lemma commit_execute_append_fails:
  assumes "append L (ce_commitEventId env) (ce_commitEventTs env) (committed_event p m)
             (keystore s) (eventLog s) = Inl e"
  shows "commit_execute L callTool env pid p m s = (Inl e, s)"
  using assms unfolding commit_execute_def committed_event_def by simp

lemma commit_execute_executor_throws:
  assumes "append L (ce_commitEventId env) (ce_commitEventTs env) (committed_event p m)
             (keystore s) (eventLog s) = Inr (eid, events1)"
    and "callTool (tool (p_action p)) (arguments (p_action p)) = Inl err"
  shows "commit_execute L callTool env pid p m s =
           (Inl err, s\<lparr> eventLog := events1,
                         toolCalls := toolCalls s @ [(tool (p_action p), arguments (p_action p))] \<rparr>)"
  using assms unfolding commit_execute_def committed_event_def by (simp add: Let_def)

lemma commit_execute_calls_executor:
  assumes "append L (ce_commitEventId env) (ce_commitEventTs env) (committed_event p m)
             (keystore s) (eventLog s) = Inr (eid, events1)"
  shows "toolCalls (snd (commit_execute L callTool env pid p m s)) =
           toolCalls s @ [(tool (p_action p), arguments (p_action p))]"
  using assms unfolding commit_execute_def committed_event_def
  by (simp add: Let_def split: sum.splits prod.splits)

lemma commit_execute_Inr:
  assumes "commit_execute L callTool env pid p m s = (Inr res, s')"
  shows "\<exists>c r. eventLog s' = eventLog s @ [c, r] \<and>
           e_type c = ''COMMITTED'' \<and> e_signer c = delegate m \<and>
           e_payload c = JObj [(''proposalId'', JStr (p_id p)), (''mandateId'', JStr (mandate_id m)),
                               (''action'', JStr (tool (p_action p)))] \<and>
           e_type r = ''RECEIPT_ISSUED'' \<and> e_signer r = issuer m \<and>
           e_payload r = JObj [(''receiptId'', JStr (receipt_id (x_receipt res))),
                               (''mandateId'', JStr (mandate_id m)), (''proposalId'', JStr (p_id p))] \<and>
           proposals s' = (proposals s)(pid \<mapsto> p\<lparr> p_status := committed \<rparr>) \<and>
           toolCalls s' = toolCalls s @ [(tool (p_action p), arguments (p_action p))] \<and>
           callTool (tool (p_action p)) (arguments (p_action p)) = Inr (x_output res)"
proof -
  from assms obtain eid events1 where a1: "append L (ce_commitEventId env) (ce_commitEventTs env)
      (committed_event p m) (keystore s) (eventLog s) = Inr (eid, events1)"
    unfolding commit_execute_def committed_event_def by (auto split: sum.splits)
  from assms a1 obtain out where ex: "callTool (tool (p_action p)) (arguments (p_action p)) = Inr out"
    unfolding commit_execute_def committed_event_def by (auto simp: Let_def split: sum.splits)
  obtain kid keys2 where ek: "ensureUserKey L (ce_freshKey env) (issuer m) (keystore s) = (kid, keys2)"
    by (cases "ensureUserKey L (ce_freshKey env) (issuer m) (keystore s)")
  from assms a1 ex ek obtain rh rcpt eid2 events2 where
      hc: "hashCanonical L out = Inr rh"
    and a2: "append L (ce_receiptEventId env) (ce_receiptEventTs env)
               \<lparr> pe_type = ''RECEIPT_ISSUED'',
                 pe_payload = JObj [(''receiptId'', JStr (receipt_id rcpt)),
                                    (''mandateId'', JStr (mandate_id m)),
                                    (''proposalId'', JStr (p_id p))],
                 pe_signer = issuer m \<rparr> keys2 events1 = Inr (eid2, events2)"
    and res: "res = \<lparr> x_output = out, x_receipt = rcpt \<rparr>"
    and s': "s' = s\<lparr> eventLog := events2, toolCalls := toolCalls s @ [(tool (p_action p), arguments (p_action p))],
                     keystore := keys2,
                     proposals := (proposals s)(pid \<mapsto> p\<lparr> p_status := committed \<rparr>) \<rparr>"
    unfolding commit_execute_def committed_event_def
    by (auto simp: Let_def split: sum.splits)
  from append_Inr[OF a1] obtain c where c: "events1 = eventLog s @ [c]" "e_type c = ''COMMITTED''"
    "e_signer c = delegate m"
    "e_payload c = JObj [(''proposalId'', JStr (p_id p)), (''mandateId'', JStr (mandate_id m)),
                               (''action'', JStr (tool (p_action p)))]"
    unfolding committed_event_def by auto
  from append_Inr[OF a2] obtain r where r: "events2 = events1 @ [r]" "e_type r = ''RECEIPT_ISSUED''"
    "e_signer r = issuer m"
    "e_payload r = JObj [(''receiptId'', JStr (receipt_id rcpt)),
                               (''mandateId'', JStr (mandate_id m)), (''proposalId'', JStr (p_id p))]"
    by auto
  show ?thesis
    by (rule exI[of _ c], rule exI[of _ r]) (use c r res s' ex in simp)
qed

lemma signed_by_signer_ensureUserKey:
  assumes "signed_by_signer L keys evt"
  shows "signed_by_signer L (snd (ensureUserKey L fresh a keys)) evt"
proof -
  from assms obtain c kp sk sg where h: "canonicalize L
            (JObj [(''type'', JStr (e_type evt)), (''payload'', e_payload evt),
                   (''signer'', JStr (e_signer evt)), (''id'', JStr (e_id evt)),
                   (''timestamp'', JStr (e_timestamp evt)),
                   (''prev_hash'', (case e_prev_hash evt of
                                      None \<Rightarrow> JUndefined | Some h \<Rightarrow> JStr h))]) = Some c"
     "c \<noteq> []" "keys (''ed25519:'' @ e_signer evt) = Some kp" "privateKey kp = Some sk"
     "ed25519_sign L c sk = Inr sg" "e_signature evt = bytesToHex L sg"
    unfolding signed_by_signer_def by blast
  from h(3) have "snd (ensureUserKey L fresh a keys) (''ed25519:'' @ e_signer evt) = Some kp"
    unfolding ensureUserKey_def Let_def by auto
  with h show ?thesis unfolding signed_by_signer_def by blast
qed

lemma commit_execute_signed:
  assumes "commit_execute L callTool env pid p m s = (Inr res, s')"
  shows "\<exists>c r. eventLog s' = eventLog s @ [c, r] \<and>
           keystore s' = snd (ensureUserKey L (ce_freshKey env) (issuer m) (keystore s)) \<and>
           signed_by_signer L (keystore s') c \<and> signed_by_signer L (keystore s') r \<and>
           (eventLog s \<noteq> [] \<longrightarrow> link_ok L (eventLog s') (length (eventLog s))) \<and>
           link_ok L (eventLog s') (Suc (length (eventLog s)))"
proof -
  from assms obtain eid events1 where a1: "append L (ce_commitEventId env) (ce_commitEventTs env)
      (committed_event p m) (keystore s) (eventLog s) = Inr (eid, events1)"
    unfolding commit_execute_def committed_event_def by (auto split: sum.splits)
  from assms a1 obtain out where ex: "callTool (tool (p_action p)) (arguments (p_action p)) = Inr out"
    unfolding commit_execute_def committed_event_def by (auto simp: Let_def split: sum.splits)
  obtain kid keys2 where ek: "ensureUserKey L (ce_freshKey env) (issuer m) (keystore s) = (kid, keys2)"
    by (cases "ensureUserKey L (ce_freshKey env) (issuer m) (keystore s)")
  from assms a1 ex ek obtain rh rcpt eid2 events2 where
      hc: "hashCanonical L out = Inr rh"
    and a2: "append L (ce_receiptEventId env) (ce_receiptEventTs env)
               \<lparr> pe_type = ''RECEIPT_ISSUED'',
                 pe_payload = JObj [(''receiptId'', JStr (receipt_id rcpt)),
                                    (''mandateId'', JStr (mandate_id m)),
                                    (''proposalId'', JStr (p_id p))],
                 pe_signer = issuer m \<rparr> keys2 events1 = Inr (eid2, events2)"
    and res: "res = \<lparr> x_output = out, x_receipt = rcpt \<rparr>"
    and s': "s' = s\<lparr> eventLog := events2, toolCalls := toolCalls s @ [(tool (p_action p), arguments (p_action p))],
                     keystore := keys2,
                     proposals := (proposals s)(pid \<mapsto> p\<lparr> p_status := committed \<rparr>) \<rparr>"
    unfolding commit_execute_def committed_event_def
    by (auto simp: Let_def split: sum.splits)
  from append_Inr[OF a1] obtain c where c: "events1 = eventLog s @ [c]"
    and cs: "signed_by_signer L (keystore s) c"
    and cp: "if eventLog s = [] then e_prev_hash c = None
            else \<exists>h. hashCanonical L (event_json (last (eventLog s))) = Inr h \<and> e_prev_hash c = Some h"
    by blast
  from append_Inr[OF a2] obtain r where r: "events2 = events1 @ [r]"
    and rs: "signed_by_signer L keys2 r"
    and rp: "if events1 = [] then e_prev_hash r = None
            else \<exists>h. hashCanonical L (event_json (last events1)) = Inr h \<and> e_prev_hash r = Some h"
    by blast
  have k2: "keys2 = snd (ensureUserKey L (ce_freshKey env) (issuer m) (keystore s))"
    using ek by simp
  have log: "eventLog s' = eventLog s @ [c, r]" unfolding s' r c by simp
  have ks: "keystore s' = keys2" unfolding s' by simp
  have cs2: "signed_by_signer L keys2 c"
    unfolding k2 using cs by (rule signed_by_signer_ensureUserKey)
  have l1: "eventLog s \<noteq> [] \<longrightarrow> link_ok L (eventLog s') (length (eventLog s))"
  proof
    assume ne: "eventLog s \<noteq> []"
    with cp obtain h where h: "hashCanonical L (event_json (last (eventLog s))) = Inr h"
      "e_prev_hash c = Some h" by auto
    from ne have n1: "eventLog s' ! (length (eventLog s) - 1) = last (eventLog s)"
      unfolding log by (simp add: nth_append last_conv_nth)
    have n2: "eventLog s' ! length (eventLog s) = c" unfolding log by simp
    show "link_ok L (eventLog s') (length (eventLog s))"
      unfolding link_ok_event_json n1 n2 using h hashCanonical_Inr by auto
  qed
  have l2: "link_ok L (eventLog s') (Suc (length (eventLog s)))"
  proof -
    from rp c obtain h where h: "hashCanonical L (event_json c) = Inr h"
      "e_prev_hash r = Some h" by auto
    have n1: "eventLog s' ! (Suc (length (eventLog s)) - 1) = c" unfolding log by simp
    have n2: "eventLog s' ! Suc (length (eventLog s)) = r" unfolding log by (simp add: nth_append)
    show ?thesis
      unfolding link_ok_event_json n1 n2 using h hashCanonical_Inr by auto
  qed
  show ?thesis
    by (rule exI[of _ c], rule exI[of _ r]) (use log ks k2 cs2 rs l1 l2 in simp)
qed

lemma commit_execute_effect:
  assumes "commit_execute L callTool env pid p m s = (r, s')"
  shows "(\<exists>ext. eventLog s' = eventLog s @ ext) \<and>
         (proposals s' = proposals s \<or> proposals s' = (proposals s)(pid \<mapsto> p\<lparr> p_status := committed \<rparr>))"
proof (cases "append L (ce_commitEventId env) (ce_commitEventTs env) (committed_event p m)
             (keystore s) (eventLog s)")
  case (Inl e)
  from commit_execute_append_fails[OF Inl] assms show ?thesis by simp
next
  case (Inr x)
  obtain eid events1 where x: "x = (eid, events1)" by (cases x)
  note a1 = Inr[unfolded x]
  from append_Inr[OF a1] obtain c where c: "events1 = eventLog s @ [c]" by auto
  show ?thesis
  proof (cases r)
    case (Inr res)
    from commit_execute_Inr[OF assms[unfolded Inr]] show ?thesis by auto
  next
    case (Inl e)
    obtain kid keys2 where ek: "ensureUserKey L (ce_freshKey env) (issuer m) (keystore s) = (kid, keys2)"
      by (cases "ensureUserKey L (ce_freshKey env) (issuer m) (keystore s)")
    from assms a1 Inl ek have "eventLog s' = events1 \<and> proposals s' = proposals s"
      unfolding commit_execute_def committed_event_def
      by (auto simp: Let_def split: sum.splits)
    with c show ?thesis by auto
  qed
qed

lemma adapter_isMandateRevoked_eq:
  "adapter_isMandateRevoked L mandateId events = isMandateRevoked events mandateId"
  unfolding adapter_isMandateRevoked_def isMandateRevoked_def query_def list_ex_iff
  by auto

lemma commit_Inr:
  assumes "commit L callTool env pid m s = (Inr res, s')"
  shows "\<exists>p vr. proposals s pid = Some p \<and> p_status p = pending \<and>
           verifyMandate L (ce_now env) m (keystore s) (Some (eventLog s)) = Inr vr \<and> valid vr \<and>
           \<not> adapter_isMandateRevoked L (mandate_id m) (eventLog s) \<and>
           isActionInScope (tool (p_action p)) m \<and>
           commit_execute L callTool env pid p m s = (Inr res, s')"
proof -
  from assms obtain p where p: "proposals s pid = Some p" "p_status p = pending"
    unfolding commit_def commit_gates_def by (auto split: option.splits if_splits)
  from assms p obtain vr where vr: "verifyMandate L (ce_now env) m (keystore s) (Some (eventLog s)) = Inr vr"
    unfolding commit_def commit_gates_def by (auto split: sum.splits)
  note rej = reject_proposal_effect[of L env pid p _ _ _ s "Inr res" s']
  from assms p vr rej have v: "valid vr"
    unfolding commit_def commit_gates_def by (auto split: if_splits)
  from assms p vr v rej have nr: "\<not> adapter_isMandateRevoked L (mandate_id m) (eventLog s)"
    unfolding commit_def commit_gates_def by (auto split: if_splits)
  from assms p vr v nr rej have sc: "isActionInScope (tool (p_action p)) m"
    unfolding commit_def commit_gates_def by (auto split: if_splits)
  from assms p vr v nr sc have "commit_execute L callTool env pid p m s = (Inr res, s')"
    unfolding commit_def commit_gates_def by simp
  with p vr v nr sc show ?thesis by blast
qed

lemma commit_gates_passed:
  assumes "proposals s pid = Some p" "p_status p = pending"
    "verifyMandate L (ce_now env) m (keystore s) (Some (eventLog s)) = Inr vr" "valid vr"
    "\<not> adapter_isMandateRevoked L (mandate_id m) (eventLog s)"
    "isActionInScope (tool (p_action p)) m"
  shows "commit L callTool env pid m s = commit_execute L callTool env pid p m s"
  using assms unfolding commit_def commit_gates_def by simp

lemma commit_effect:
  assumes "commit L callTool env pid m s = (r, s')"
  shows "(\<exists>ext. eventLog s' = eventLog s @ ext) \<and>
         (proposals s' = proposals s \<or>
          (\<exists>p st. proposals s pid = Some p \<and> proposals s' = (proposals s)(pid \<mapsto> p\<lparr> p_status := st \<rparr>)))"
proof (cases "proposals s pid")
  case None
  with assms show ?thesis unfolding commit_def commit_gates_def by auto
next
  case (Some p)
  show ?thesis
  proof (cases "p_status p = pending")
    case False
    with assms Some show ?thesis unfolding commit_def commit_gates_def by auto
  next
    case True
    show ?thesis
    proof (cases "verifyMandate L (ce_now env) m (keystore s) (Some (eventLog s))")
      case (Inl e)
      with assms Some True show ?thesis unfolding commit_def commit_gates_def by auto
    next
      case (Inr vr)
      have rej: "reject_proposal L env pid p reason details message s = (r, s') \<Longrightarrow> ?thesis"
        for reason details message
        using reject_proposal_effect[of L env pid p reason details message s r s'] Some by auto
      have exe: "commit_execute L callTool env pid p m s = (r, s') \<Longrightarrow> ?thesis"
        using commit_execute_effect[of L callTool env pid p m s r s'] Some by auto
      from assms Some True Inr rej exe show ?thesis
        unfolding commit_def commit_gates_def by (auto split: if_splits)
    qed
  qed
qed

lemma propose_effect:
  assumes "propose L env action agentId s = (r, s')"
  shows "(\<exists>ext. eventLog s' = eventLog s @ ext) \<and>
         (proposals s' = proposals s \<or>
          (\<exists>p evt. proposals s' = (proposals s)(p_id p \<mapsto> p) \<and> eventLog s' = eventLog s @ [evt] \<and>
                    suggestion_of p evt \<and> p_status p = pending \<and> r = Inr p))"
proof -
  let ?s1 = "s\<lparr> keystore := snd (ensureUserKey L (pe_freshKey env) agentId (keystore s)) \<rparr>"
  let ?cap = "captureRequest L (pe_mirrorUuid env) (pe_mirrorTs env) agentId
             (JSON_stringify L (action_json action))
             (JObj [(''adapter'', JStr ''mcp-fs''), (''version'', JStr ''0.1.0''),
                    (''tool'', JStr (tool action))])
             (mirror ?s1)"
  show ?thesis
  proof (cases ?cap)
    case (Inl e)
    with assms show ?thesis unfolding propose_def Let_def by auto
  next
    case (Inr x)
    obtain mirrorId request_hash entries where x: "x = (mirrorId, request_hash, entries)" by (cases x)
    let ?ev = "\<lparr> pe_type = ''SUGGESTION'',
                    pe_payload = JObj [(''mirrorRef'', JStr mirrorId), (''agentId'', JStr agentId),
                                       (''proposedAction'', action_json action),
                                       (''estimatedCost'', JNum 0)],
                    pe_signer = agentId \<rparr>"
    let ?app = "append L (pe_eventId env) (pe_eventTs env) ?ev (keystore ?s1) (eventLog s)"
    show ?thesis
    proof (cases ?app)
      case (Inl e)
      with assms Inr x show ?thesis unfolding propose_def Let_def by auto
    next
      case a: (Inr y)
      obtain sid events where y: "y = (sid, events)" by (cases y)
      from append_Inr[OF a[unfolded y]] obtain evt where evt: "events = eventLog s @ [evt]"
        "sid = pe_eventId env" "e_id evt = pe_eventId env" "e_type evt = ''SUGGESTION''"
        "e_payload evt = JObj [(''mirrorRef'', JStr mirrorId), (''agentId'', JStr agentId),
                                       (''proposedAction'', action_json action),
                                       (''estimatedCost'', JNum 0)]"
        by auto
      let ?p = "\<lparr> p_id = ''proposal_'' @ pe_uuid env, p_action = action,
                                  p_mirrorRef = mirrorId, p_eventId = sid,
                                  p_status = pending, p_createdAt = pe_createdAt env \<rparr>"
      from assms Inr x a y have r: "r = Inr ?p" and s': "eventLog s' = events"
        "proposals s' = (proposals s)(p_id ?p \<mapsto> ?p)"
        unfolding propose_def Let_def by auto
      have "suggestion_of ?p evt"
        unfolding suggestion_of_def using evt by (simp add: payload_field_def)
      with r s' evt show ?thesis by auto
    qed
  qed
qed

lemma suggestion_kept:
  assumes "\<exists>i < length events. suggestion_of p (events ! i)"
  shows "\<exists>i < length (events @ ext). suggestion_of p ((events @ ext) ! i)"
proof -
  from assms obtain i where "i < length events" "suggestion_of p (events ! i)" by blast
  then have "i < length (events @ ext) \<and> suggestion_of p ((events @ ext) ! i)"
    by (simp add: nth_append)
  then show ?thesis by blast
qed

lemma suggestion_of_status [simp]:
  "suggestion_of (p\<lparr> p_status := st \<rparr>) evt = suggestion_of p evt"
  by (simp add: suggestion_of_def)

lemma proposals_logged_log_grows:
  assumes "proposals_logged s" "eventLog s' = eventLog s @ ext" "proposals s' = proposals s"
  shows "proposals_logged s'"
  unfolding proposals_logged_def
proof (intro allI impI)
  fix pid p assume "proposals s' pid = Some p"
  with assms(1,3) have "p_id p = pid" "\<exists>i<length (eventLog s). suggestion_of p (eventLog s ! i)"
    unfolding proposals_logged_def by simp_all
  with suggestion_kept[of "eventLog s" p ext]
  show "p_id p = pid \<and> (\<exists>i<length (eventLog s'). suggestion_of p (eventLog s' ! i))"
    unfolding assms(2) by simp
qed

lemma proposals_logged_commit:
  assumes inv: "proposals_logged s" and c: "commit L callTool env pid m s = (r, s')"
  shows "proposals_logged s'"
proof -
  from commit_effect[OF c] obtain ext where ext: "eventLog s' = eventLog s @ ext"
    and pr: "proposals s' = proposals s \<or>
          (\<exists>p st. proposals s pid = Some p \<and> proposals s' = (proposals s)(pid \<mapsto> p\<lparr> p_status := st \<rparr>))"
    by blast
  from pr show ?thesis
  proof
    assume "proposals s' = proposals s"
    with inv ext show ?thesis by (rule proposals_logged_log_grows)
  next
    assume "\<exists>p st. proposals s pid = Some p \<and> proposals s' = (proposals s)(pid \<mapsto> p\<lparr> p_status := st \<rparr>)"
    then obtain p st where p: "proposals s pid = Some p"
      and ps: "proposals s' = (proposals s)(pid \<mapsto> p\<lparr> p_status := st \<rparr>)" by blast
    show ?thesis unfolding proposals_logged_def
    proof (intro allI impI)
      fix q p' assume q: "proposals s' q = Some p'"
      show "p_id p' = q \<and> (\<exists>i<length (eventLog s'). suggestion_of p' (eventLog s' ! i))"
      proof (cases "q = pid")
        case True
        with q ps have p': "p' = p\<lparr> p_status := st \<rparr>" by simp
        from inv p have "p_id p = pid" "\<exists>i<length (eventLog s). suggestion_of p (eventLog s ! i)"
          unfolding proposals_logged_def by blast+
        with suggestion_kept[of "eventLog s" p ext] True show ?thesis
          unfolding p' ext by simp
      next
        case False
        with q ps have "proposals s q = Some p'" by simp
        with inv have "p_id p' = q" "\<exists>i<length (eventLog s). suggestion_of p' (eventLog s ! i)"
          unfolding proposals_logged_def by blast+
        with suggestion_kept[of "eventLog s" p' ext] show ?thesis unfolding ext by simp
      qed
    qed
  qed
qed

lemma proposals_logged_propose:
  assumes inv: "proposals_logged s" and c: "propose L env action agentId s = (r, s')"
  shows "proposals_logged s'"
proof -
  from propose_effect[OF c] obtain ext where ext: "eventLog s' = eventLog s @ ext"
    and pr: "proposals s' = proposals s \<or>
          (\<exists>p evt. proposals s' = (proposals s)(p_id p \<mapsto> p) \<and> eventLog s' = eventLog s @ [evt] \<and>
                    suggestion_of p evt \<and> p_status p = pending \<and> r = Inr p)"
    by blast
  from pr show ?thesis
  proof
    assume "proposals s' = proposals s"
    with inv ext show ?thesis by (rule proposals_logged_log_grows)
  next
    assume "\<exists>p evt. proposals s' = (proposals s)(p_id p \<mapsto> p) \<and> eventLog s' = eventLog s @ [evt] \<and>
                    suggestion_of p evt \<and> p_status p = pending \<and> r = Inr p"
    then obtain p evt where ps: "proposals s' = (proposals s)(p_id p \<mapsto> p)"
      and ev: "eventLog s' = eventLog s @ [evt]" and sg: "suggestion_of p evt" by blast
    show ?thesis unfolding proposals_logged_def
    proof (intro allI impI)
      fix q p' assume q: "proposals s' q = Some p'"
      show "p_id p' = q \<and> (\<exists>i<length (eventLog s'). suggestion_of p' (eventLog s' ! i))"
      proof (cases "q = p_id p")
        case True
        with q ps have p': "p' = p" by simp
        have "length (eventLog s) < length (eventLog s') \<and> suggestion_of p (eventLog s' ! length (eventLog s))"
          unfolding ev using sg by simp
        with True p' show ?thesis by blast
      next
        case False
        with q ps have "proposals s q = Some p'" by simp
        with inv have "p_id p' = q" "\<exists>i<length (eventLog s). suggestion_of p' (eventLog s ! i)"
          unfolding proposals_logged_def by blast+
        with suggestion_kept[of "eventLog s" p' "[evt]"] show ?thesis unfolding ev by simp
      qed
    qed
  qed
qed

lemma proposals_logged_apply_op:
  assumes "proposals_logged s"
  shows "proposals_logged (apply_op L callTool op s)"
proof (cases op)
  case (Propose env action agentId)
  then show ?thesis
    using proposals_logged_propose[OF assms, of L env action agentId] by (simp add: prod_eq_iff)
next
  case (Commit env pid m)
  then show ?thesis
    using proposals_logged_commit[OF assms, of L callTool env pid m] by (simp add: prod_eq_iff)
next
  case (Append eid ts event)
  show ?thesis
  proof (cases "append L eid ts event (keystore s) (eventLog s)")
    case (Inl e)
    with Append assms show ?thesis by simp
  next
    case (Inr x)
    obtain nid events where x: "x = (nid, events)" by (cases x)
    from append_Inr[OF Inr[unfolded x]] obtain evt where "events = eventLog s @ [evt]" by blast
    then have "eventLog (s\<lparr> eventLog := events \<rparr>) = eventLog s @ [evt]"
      "proposals (s\<lparr> eventLog := events \<rparr>) = proposals s" by simp_all
    from proposals_logged_log_grows[OF assms this] Append Inr x show ?thesis by simp
  qed
next
  case (EnsureKey fresh actorId)
  with assms show ?thesis by (simp add: proposals_logged_def)
next
  case (ImportKey kid pk sk)
  with assms show ?thesis by (simp add: proposals_logged_def)
qed

lemma proposals_logged_run:
  "proposals_logged s \<Longrightarrow> proposals_logged (run L callTool ops s)"
  unfolding run_def
  by (induction ops arbitrary: s) (simp_all add: proposals_logged_apply_op)

lemma proposals_logged_new: "proposals_logged (new_adapter keys events)"
  by (simp add: proposals_logged_def new_adapter_def)

text \<open>
  Claim C7. For an adapter reached from a new one by any operations, a \<open>commit\<close> that
  returns successfully leaves the proposal in status \<open>committed\<close>, and the event log
  holds, in this order, the \<open>SUGGESTION\<close> event of the proposal (appended by
  \<open>propose\<close>), a \<open>COMMITTED\<close> event for it signed by \<open>mandate.delegate\<close>, and a
  \<open>RECEIPT_ISSUED\<close> event for it signed by \<open>mandate.issuer\<close>; the last two are the
  events the call appended, after the events that were there. Signed means: the
  signature of the \<open>COMMITTED\<close> event is the Ed25519 signature made with the private
  key stored under \<open>ed25519:<mandate.delegate>\<close>, and that of the \<open>RECEIPT_ISSUED\<close>
  event the one made with the private key stored under \<open>ed25519:<mandate.issuer>\<close>
  (generated by the call if absent), each over the canonical JSON of the event without
  its signature field. Each of the two events carries the hash of the entire event
  before it, and both signatures verify under the stored public keys when the stored
  pairs are matching pairs. So no successful commit exists without these events.
\<close>

theorem successful_commit_events:
  assumes "s = run L callTool ops (new_adapter keys0 events0)"
    and "commit L callTool env pid m s = (Inr res, s')"
  shows "\<exists>p i. proposals s pid = Some p \<and> p_id p = pid \<and> p_status p = pending
      \<and> proposals s' pid = Some (p\<lparr> p_status := committed \<rparr>)
      \<and> length (eventLog s') = length (eventLog s) + 2
      \<and> take (length (eventLog s)) (eventLog s') = eventLog s
      \<and> i < length (eventLog s) \<and> suggestion_of p (eventLog s' ! i)
      \<and> e_type (eventLog s' ! length (eventLog s)) = ''COMMITTED''
      \<and> e_signer (eventLog s' ! length (eventLog s)) = delegate m
      \<and> e_payload (eventLog s' ! length (eventLog s)) =
           JObj [(''proposalId'', JStr pid), (''mandateId'', JStr (mandate_id m)),
                 (''action'', JStr (tool (p_action p)))]
      \<and> e_type (eventLog s' ! Suc (length (eventLog s))) = ''RECEIPT_ISSUED''
      \<and> e_signer (eventLog s' ! Suc (length (eventLog s))) = issuer m
      \<and> e_payload (eventLog s' ! Suc (length (eventLog s))) =
           JObj [(''receiptId'', JStr (receipt_id (x_receipt res))),
                 (''mandateId'', JStr (mandate_id m)), (''proposalId'', JStr pid)]
      \<and> keystore s' = snd (ensureUserKey L (ce_freshKey env) (issuer m) (keystore s))
      \<and> signed_by_signer L (keystore s') (eventLog s' ! length (eventLog s))
      \<and> signed_by_signer L (keystore s') (eventLog s' ! Suc (length (eventLog s)))
      \<and> link_ok L (eventLog s') (length (eventLog s))
      \<and> link_ok L (eventLog s') (Suc (length (eventLog s)))
      \<and> (sig_correct L \<and> wf_keystore L (keystore s') \<longrightarrow>
            signature_verifies L (keystore s') (eventLog s' ! length (eventLog s))
          \<and> signature_verifies L (keystore s') (eventLog s' ! Suc (length (eventLog s))))"
proof -
  have inv: "proposals_logged s"
    unfolding assms(1) using proposals_logged_new by (rule proposals_logged_run)
  from commit_Inr[OF assms(2)] obtain p where p: "proposals s pid = Some p" "p_status p = pending"
    and ex: "commit_execute L callTool env pid p m s = (Inr res, s')" by blast
  from inv p obtain i where pid: "p_id p = pid" and i: "i < length (eventLog s)"
    "suggestion_of p (eventLog s ! i)" unfolding proposals_logged_def by blast
  from commit_execute_Inr[OF ex] obtain c r where log: "eventLog s' = eventLog s @ [c, r]"
    and c: "e_type c = ''COMMITTED''" "e_signer c = delegate m"
      "e_payload c = JObj [(''proposalId'', JStr (p_id p)), (''mandateId'', JStr (mandate_id m)),
                               (''action'', JStr (tool (p_action p)))]"
    and r: "e_type r = ''RECEIPT_ISSUED''" "e_signer r = issuer m"
      "e_payload r = JObj [(''receiptId'', JStr (receipt_id (x_receipt res))),
                               (''mandateId'', JStr (mandate_id m)), (''proposalId'', JStr (p_id p))]"
    and ps: "proposals s' = (proposals s)(pid \<mapsto> p\<lparr> p_status := committed \<rparr>)"
    by blast
  from commit_execute_signed[OF ex] obtain c' r' where log': "eventLog s' = eventLog s @ [c', r']"
    and ks: "keystore s' = snd (ensureUserKey L (ce_freshKey env) (issuer m) (keystore s))"
    and sg: "signed_by_signer L (keystore s') c'" "signed_by_signer L (keystore s') r'"
    and l1: "eventLog s \<noteq> [] \<longrightarrow> link_ok L (eventLog s') (length (eventLog s))"
    and l2: "link_ok L (eventLog s') (Suc (length (eventLog s)))"
    by blast
  from log log' have cr: "c' = c" "r' = r" by simp_all
  from i have ne: "eventLog s \<noteq> []" by auto
  have n0: "eventLog s' ! i = eventLog s ! i" unfolding log using i by (simp add: nth_append)
  have n1: "eventLog s' ! length (eventLog s) = c" unfolding log by simp
  have n2: "eventLog s' ! Suc (length (eventLog s)) = r" unfolding log by (simp add: nth_append)
  have len: "length (eventLog s') = length (eventLog s) + 2" unfolding log by simp
  have tk: "take (length (eventLog s)) (eventLog s') = eventLog s" unfolding log by simp
  have sv: "sig_correct L \<and> wf_keystore L (keystore s') \<longrightarrow>
            signature_verifies L (keystore s') c \<and> signature_verifies L (keystore s') r"
    using sg signed_verifies unfolding cr by blast
  from l1 ne have l1': "link_ok L (eventLog s') (length (eventLog s))" by blast
  have A: "proposals s pid = Some p \<and> p_id p = pid \<and> p_status p = pending
      \<and> proposals s' pid = Some (p\<lparr> p_status := committed \<rparr>)
      \<and> length (eventLog s') = length (eventLog s) + 2
      \<and> take (length (eventLog s)) (eventLog s') = eventLog s
      \<and> i < length (eventLog s) \<and> suggestion_of p (eventLog s' ! i)"
    using p pid i ps n0 len tk by simp
  have B: "e_type (eventLog s' ! length (eventLog s)) = ''COMMITTED''
      \<and> e_signer (eventLog s' ! length (eventLog s)) = delegate m
      \<and> e_payload (eventLog s' ! length (eventLog s)) =
           JObj [(''proposalId'', JStr pid), (''mandateId'', JStr (mandate_id m)),
                 (''action'', JStr (tool (p_action p)))]
      \<and> e_type (eventLog s' ! Suc (length (eventLog s))) = ''RECEIPT_ISSUED''
      \<and> e_signer (eventLog s' ! Suc (length (eventLog s))) = issuer m
      \<and> e_payload (eventLog s' ! Suc (length (eventLog s))) =
           JObj [(''receiptId'', JStr (receipt_id (x_receipt res))),
                 (''mandateId'', JStr (mandate_id m)), (''proposalId'', JStr pid)]"
    unfolding n1 n2 using c r pid by simp
  have C: "keystore s' = snd (ensureUserKey L (ce_freshKey env) (issuer m) (keystore s))
      \<and> signed_by_signer L (keystore s') (eventLog s' ! length (eventLog s))
      \<and> signed_by_signer L (keystore s') (eventLog s' ! Suc (length (eventLog s)))
      \<and> link_ok L (eventLog s') (length (eventLog s))
      \<and> link_ok L (eventLog s') (Suc (length (eventLog s)))
      \<and> (sig_correct L \<and> wf_keystore L (keystore s') \<longrightarrow>
            signature_verifies L (keystore s') (eventLog s' ! length (eventLog s))
          \<and> signature_verifies L (keystore s') (eventLog s' ! Suc (length (eventLog s))))"
    unfolding n1 n2 using ks sg[unfolded cr] l1' l2 sv by blast
  from A B C show ?thesis
    by (intro exI[of _ p] exI[of _ i]) blast
qed


lemma verifyMandate_errors:
  assumes "verifyMandate L now m keys (Some events) = Inr vr"
  shows "valid vr = (errors vr = [])"
    and "isMandateRevoked events (mandate_id m) \<Longrightarrow> ''Mandate has been revoked'' \<in> set (errors vr)"
    and "valid vr \<Longrightarrow> \<not> isMandateRevoked events (mandate_id m)"
proof -
  from assms obtain se where vr: "vr = \<lparr> valid = (check_not_before L now m @ check_not_after L now m @
                      check_revoked m (Some events) @ se = []),
      errors = check_not_before L now m @ check_not_after L now m @ check_revoked m (Some events) @ se \<rparr>"
    unfolding verifyMandate_def Let_def by (auto split: sum.splits)
  show "valid vr = (errors vr = [])" unfolding vr by simp
  show "isMandateRevoked events (mandate_id m) \<Longrightarrow> ''Mandate has been revoked'' \<in> set (errors vr)"
    unfolding vr check_revoked_def by simp
  show "valid vr \<Longrightarrow> \<not> isMandateRevoked events (mandate_id m)"
    unfolding vr check_revoked_def by (auto split: if_splits)
qed

lemma commit_revoked:
  assumes p: "proposals s pid = Some p" "p_status p = pending"
    and rv: "isMandateRevoked (eventLog s) (mandate_id m)"
    and vm: "verifyMandate L (ce_now env) m (keystore s) (Some (eventLog s)) = Inr vr"
  shows "commit L callTool env pid m s =
           (case append L (ce_rejectEventId env) (ce_rejectEventTs env)
                   (rejection_event p ''INVALID_MANDATE'' (errors vr)) (keystore s) (eventLog s) of
              Inl e \<Rightarrow>
                (Inl e, s\<lparr> proposals := (proposals s)(pid \<mapsto> p\<lparr> p_status := rejected \<rparr>) \<rparr>)
            | Inr (eid, events1) \<Rightarrow>
                (Inl (Error (''INVALID_MANDATE: '' @ join '', '' (errors vr))),
                 s\<lparr> proposals := (proposals s)(pid \<mapsto> p\<lparr> p_status := rejected \<rparr>),
                     eventLog := events1 \<rparr>))"
proof -
  from verifyMandate_errors(3)[OF vm] rv have nv: "\<not> valid vr" by blast
  have "reject_proposal L env pid p ''INVALID_MANDATE'' (errors vr)
          (''INVALID_MANDATE: '' @ join '', '' (errors vr)) s =
        (case append L (ce_rejectEventId env) (ce_rejectEventTs env)
                   (rejection_event p ''INVALID_MANDATE'' (errors vr)) (keystore s) (eventLog s) of
              Inl e \<Rightarrow>
                (Inl e, s\<lparr> proposals := (proposals s)(pid \<mapsto> p\<lparr> p_status := rejected \<rparr>) \<rparr>)
            | Inr (eid, events1) \<Rightarrow>
                (Inl (Error (''INVALID_MANDATE: '' @ join '', '' (errors vr))),
                 s\<lparr> proposals := (proposals s)(pid \<mapsto> p\<lparr> p_status := rejected \<rparr>),
                     eventLog := events1 \<rparr>))"
    unfolding reject_proposal_def recordRejection_def Let_def
    by (simp split: sum.splits prod.splits)
  with p vm nv show ?thesis unfolding commit_def commit_gates_def by simp
qed

lemma commit_executor_throws:
  assumes p: "proposals s pid = Some p" "p_status p = pending"
    and vm: "verifyMandate L (ce_now env) m (keystore s) (Some (eventLog s)) = Inr vr" "valid vr"
    and sc: "isActionInScope (tool (p_action p)) m"
    and ap: "append L (ce_commitEventId env) (ce_commitEventTs env) (committed_event p m)
               (keystore s) (eventLog s) = Inr (eid, events1)"
    and ex: "callTool (tool (p_action p)) (arguments (p_action p)) = Inl err"
  shows "commit L callTool env pid m s =
           (Inl err, s\<lparr> eventLog := events1,
                         toolCalls := toolCalls s @ [(tool (p_action p), arguments (p_action p))] \<rparr>)"
proof -
  from verifyMandate_errors(3)[OF vm] have "\<not> adapter_isMandateRevoked L (mandate_id m) (eventLog s)"
    unfolding adapter_isMandateRevoked_eq .
  from commit_gates_passed[OF p vm this sc, of callTool]
    commit_execute_executor_throws[of L env p m s eid events1 callTool err pid, OF ap ex]
  show ?thesis by simp
qed

lemma isMandateRevoked_append_other:
  "e_type evt \<noteq> ''MANDATE_REVOKE'' \<Longrightarrow>
     isMandateRevoked (events @ [evt]) mid = isMandateRevoked events mid"
  unfolding isMandateRevoked_def list_ex_iff by auto

lemma verifyMandate_append_other:
  "e_type evt \<noteq> ''MANDATE_REVOKE'' \<Longrightarrow>
     verifyMandate L now m keys (Some (events @ [evt])) = verifyMandate L now m keys (Some events)"
  unfolding verifyMandate_def check_revoked_def
  by (cases "check_signature L m keys") (simp_all add: isMandateRevoked_append_other)

lemmas toy_defs = toy_adapter_keys_def toy_action_def toy_penv_def toy_cenv_def toy_signed_def
  toy_proposed_def toy_lib_def toy_keys_def toy_mandate_def toy_proposal_def toy_failing_exec_def

lemmas model_defs = run_def new_adapter_def propose_def captureRequest_def hashCanonical_def
  append_def ks_sign_def ensureUserKey_def falsy_def event_toSign_def event_json_def opt_str_def
  opt_num_def opt_json_def action_json_def Let_def signMandate_def canonicalizeMandate_def
  mandate_toSign_def scope_json_def validity_json_def

lemmas commit_defs = commit_def commit_gates_def verifyMandate_def check_not_before_def
  check_not_after_def check_revoked_def check_signature_def getPublicKey_def ks_verify_def
  date_gt_def date_lt_def isMandateRevoked_def payload_field_def adapter_isMandateRevoked_def
  query_def isActionInScope_def startsWith_def endsWith_def slice_0_m1_def commit_execute_def
  committed_event_def rejection_event_def MCPFSClient_callTool_def issueReceipt_def
  receipt_toSign_def reject_proposal_def recordRejection_def

lemma toy_proposed_proposal: "proposals toy_proposed ''proposal_u1'' = Some toy_proposal"
  by (simp add: toy_defs model_defs)

lemma toy_proposed_log:
  "\<exists>evt. eventLog toy_proposed = [evt] \<and> e_type evt = ''SUGGESTION'' \<and> e_signer evt = ''agent:a''"
  by (simp add: toy_defs model_defs)

lemma toy_proposed_verify:
  "verifyMandate toy_lib 2026 toy_signed (keystore toy_proposed) (Some (eventLog toy_proposed)) =
     Inr \<lparr> valid = True, errors = [] \<rparr>"
  by (simp add: toy_defs model_defs commit_defs)

lemma toy_scope: "isActionInScope (tool (p_action toy_proposal)) toy_signed"
  by (simp add: toy_defs model_defs commit_defs)

lemma toy_committed_append:
  "\<exists>eid events1. append toy_lib (ce_commitEventId toy_cenv) (ce_commitEventTs toy_cenv)
      (committed_event toy_proposal toy_signed) (keystore toy_proposed) (eventLog toy_proposed) =
      Inr (eid, events1)"
  by (simp add: toy_defs model_defs commit_defs)

lemma toy_proposed_wf: "wf_keystore toy_lib (keystore toy_proposed)"
  by (auto simp: wf_keystore_def toy_defs model_defs split: if_splits)

theorem successful_commit_events_witness:
  "\<exists>res s'. commit toy_lib (MCPFSClient_callTool toy_lib) toy_cenv ''proposal_u1'' toy_signed
        toy_proposed = (Inr res, s')
     \<and> length (eventLog s') = 3
     \<and> e_type (eventLog s' ! 0) = ''SUGGESTION''
     \<and> e_type (eventLog s' ! 1) = ''COMMITTED'' \<and> e_signer (eventLog s' ! 1) = ''adapter:mcp-fs''
     \<and> e_type (eventLog s' ! 2) = ''RECEIPT_ISSUED'' \<and> e_signer (eventLog s' ! 2) = ''user:test''
     \<and> signed_by_signer toy_lib (keystore s') (eventLog s' ! 1)
     \<and> signed_by_signer toy_lib (keystore s') (eventLog s' ! 2)
     \<and> link_ok toy_lib (eventLog s') 1 \<and> link_ok toy_lib (eventLog s') 2
     \<and> signature_verifies toy_lib (keystore s') (eventLog s' ! 1)
     \<and> signature_verifies toy_lib (keystore s') (eventLog s' ! 2)
     \<and> map_option p_status (proposals s' ''proposal_u1'') = Some committed"
proof -
  have "\<exists>res s'. commit toy_lib (MCPFSClient_callTool toy_lib) toy_cenv ''proposal_u1'' toy_signed
      toy_proposed = (Inr res, s')"
    by (simp add: toy_defs model_defs commit_defs)
  then obtain res s' where c: "commit toy_lib (MCPFSClient_callTool toy_lib) toy_cenv ''proposal_u1''
      toy_signed toy_proposed = (Inr res, s')" by blast
  from toy_proposed_log have len: "length (eventLog toy_proposed) = 1" by auto
  have dm: "delegate toy_signed = ''adapter:mcp-fs''" "issuer toy_signed = ''user:test''"
    by (simp_all add: toy_defs model_defs)
  have sc: "sig_correct toy_lib"
    by (simp add: sig_correct_def toy_lib_def)
  from successful_commit_events[OF toy_proposed_def c]
  obtain p i where f: "proposals s' ''proposal_u1'' = Some (p\<lparr> p_status := committed \<rparr>)"
    "length (eventLog s') = length (eventLog toy_proposed) + 2"
    "i < length (eventLog toy_proposed)" "suggestion_of p (eventLog s' ! i)"
    "e_type (eventLog s' ! length (eventLog toy_proposed)) = ''COMMITTED''"
    "e_signer (eventLog s' ! length (eventLog toy_proposed)) = delegate toy_signed"
    "e_type (eventLog s' ! Suc (length (eventLog toy_proposed))) = ''RECEIPT_ISSUED''"
    "e_signer (eventLog s' ! Suc (length (eventLog toy_proposed))) = issuer toy_signed"
    and ks: "keystore s' = snd (ensureUserKey toy_lib (ce_freshKey toy_cenv) (issuer toy_signed)
        (keystore toy_proposed))"
    and g: "signed_by_signer toy_lib (keystore s') (eventLog s' ! length (eventLog toy_proposed))"
    "signed_by_signer toy_lib (keystore s') (eventLog s' ! Suc (length (eventLog toy_proposed)))"
    "link_ok toy_lib (eventLog s') (length (eventLog toy_proposed))"
    "link_ok toy_lib (eventLog s') (Suc (length (eventLog toy_proposed)))"
    and v: "sig_correct toy_lib \<and> wf_keystore toy_lib (keystore s') \<longrightarrow>
            signature_verifies toy_lib (keystore s') (eventLog s' ! length (eventLog toy_proposed))
          \<and> signature_verifies toy_lib (keystore s') (eventLog s' ! Suc (length (eventLog toy_proposed)))"
    by blast
  have wf: "wf_keystore toy_lib (keystore s')"
    unfolding ks using toy_proposed_wf by (rule wf_keystore_ensureUserKey)
  from v sc wf have v': 
    "signature_verifies toy_lib (keystore s') (eventLog s' ! length (eventLog toy_proposed))"
    "signature_verifies toy_lib (keystore s') (eventLog s' ! Suc (length (eventLog toy_proposed)))"
    by blast+
  from f(3) len have i0: "i = 0" by simp
  from f(4) i0 have sg: "e_type (eventLog s' ! 0) = ''SUGGESTION''" by (simp add: suggestion_of_def)
  have two: "Suc (Suc 0) = 2" by simp
  from c f sg len dm two g v' show ?thesis by (simp del: One_nat_def)
qed

text \<open>
  Claim C10. When the tool executor throws during the \<open>commit\<close> of a proposal that
  passed all three checkpoints, the error reaches the caller, the proposal is still
  \<open>pending\<close> (neither \<open>committed\<close> nor \<open>rejected\<close>) and the \<open>COMMITTED\<close> event of the
  attempt is in the log. A later \<open>commit\<close> of the same proposal passes the status check
  and goes on to the checkpoints; with the same mandate and clock it passes them again
  and, once its own \<open>COMMITTED\<close> event is appended, calls the executor a second time.
\<close>

theorem executor_failure_keeps_pending:
  assumes "proposals s pid = Some p" and "p_status p = pending"
    and "verifyMandate L (ce_now env) m (keystore s) (Some (eventLog s)) = Inr vr" and "valid vr"
    and "isActionInScope (tool (p_action p)) m"
    and "append L (ce_commitEventId env) (ce_commitEventTs env) (committed_event p m)
               (keystore s) (eventLog s) = Inr (eid, events1)"
    and "callTool (tool (p_action p)) (arguments (p_action p)) = Inl err"
    and "s' = s\<lparr> eventLog := events1,
                  toolCalls := toolCalls s @ [(tool (p_action p), arguments (p_action p))] \<rparr>"
  shows "commit L callTool env pid m s = (Inl err, s')
     \<and> proposals s' pid = Some p \<and> p_status p \<noteq> committed \<and> p_status p \<noteq> rejected
     \<and> (\<exists>c. eventLog s' = eventLog s @ [c] \<and> e_type c = ''COMMITTED'')
     \<and> (\<forall>callTool2 env2 m2.
           commit L callTool2 env2 pid m2 s' = commit_gates L callTool2 env2 pid p m2 s')
     \<and> (\<forall>callTool2 env2. ce_now env2 = ce_now env \<longrightarrow>
           commit L callTool2 env2 pid m s' = commit_execute L callTool2 env2 pid p m s')
     \<and> (\<forall>callTool2 env2 eid2 events2. ce_now env2 = ce_now env \<and>
           append L (ce_commitEventId env2) (ce_commitEventTs env2) (committed_event p m)
             (keystore s') (eventLog s') = Inr (eid2, events2) \<longrightarrow>
           toolCalls (snd (commit L callTool2 env2 pid m s')) =
             toolCalls s @ [(tool (p_action p), arguments (p_action p)),
                            (tool (p_action p), arguments (p_action p))])"
proof -
  note s' = assms(8)
  have first: "commit L callTool env pid m s = (Inl err, s')"
    unfolding s' using commit_executor_throws[where callTool=callTool, OF assms(1-7)] .
  have ps: "proposals s' pid = Some p" unfolding s' using assms(1) by simp
  from append_Inr[OF assms(6)] obtain c where c: "events1 = eventLog s @ [c]" "e_type c = ''COMMITTED''"
    unfolding committed_event_def by auto
  then have log: "eventLog s' = eventLog s @ [c]" unfolding s' by simp
  have lookup: "commit L callTool2 env2 pid m2 s' = commit_gates L callTool2 env2 pid p m2 s'"
    for callTool2 env2 m2
    unfolding commit_def using ps assms(2) by simp
  have retry: "commit L callTool2 env2 pid m s' = commit_execute L callTool2 env2 pid p m s'"
    if "ce_now env2 = ce_now env" for callTool2 env2
  proof -
    have "verifyMandate L (ce_now env2) m (keystore s') (Some (eventLog s')) = Inr vr"
      unfolding log that using verifyMandate_append_other[of c L "ce_now env" m "keystore s'" "eventLog s"]
        c(2) assms(3) by (simp add: s')
    moreover from verifyMandate_errors(3)[OF this assms(4)]
    have "\<not> adapter_isMandateRevoked L (mandate_id m) (eventLog s')"
      unfolding adapter_isMandateRevoked_eq .
    ultimately show ?thesis
      using commit_gates_passed[OF ps assms(2) _ assms(4) _ assms(5)] by blast
  qed
  have again: "toolCalls (snd (commit L callTool2 env2 pid m s')) =
             toolCalls s @ [(tool (p_action p), arguments (p_action p)),
                            (tool (p_action p), arguments (p_action p))]"
    if "ce_now env2 = ce_now env \<and>
           append L (ce_commitEventId env2) (ce_commitEventTs env2) (committed_event p m)
             (keystore s') (eventLog s') = Inr (eid2, events2)" for callTool2 env2 eid2 events2
    using retry[of env2 callTool2] that
      commit_execute_calls_executor[of L env2 p m s' eid2 events2 callTool2 pid]
    by (simp add: s')
  from first ps assms(2) log c(2) lookup retry again show ?thesis by auto
qed

theorem executor_failure_keeps_pending_witness:
  "fst (commit toy_lib toy_failing_exec toy_cenv ''proposal_u1'' toy_signed toy_proposed)
      = Inl (Error ''ENOENT'')
   \<and> map_option p_status (proposals toy_after_failure ''proposal_u1'') = Some pending
   \<and> map e_type (eventLog toy_after_failure) = [''SUGGESTION'', ''COMMITTED'']
   \<and> (\<exists>res s2. commit toy_lib (MCPFSClient_callTool toy_lib) toy_cenv2 ''proposal_u1'' toy_signed
          toy_after_failure = (Inr res, s2)
        \<and> map fst (toolCalls s2) = [''read_file'', ''read_file''])"
proof -
  obtain eid events1 where ap: "append toy_lib (ce_commitEventId toy_cenv) (ce_commitEventTs toy_cenv)
      (committed_event toy_proposal toy_signed) (keystore toy_proposed) (eventLog toy_proposed) =
      Inr (eid, events1)" using toy_committed_append by blast
  define s1 where "s1 = toy_proposed\<lparr> eventLog := events1,
      toolCalls := toolCalls toy_proposed @ [(tool (p_action toy_proposal), arguments (p_action toy_proposal))] \<rparr>"
  have now: "ce_now toy_cenv = 2026" "ce_now toy_cenv2 = ce_now toy_cenv"
    by (simp_all add: toy_cenv_def toy_cenv2_def)
  have ex: "toy_failing_exec (tool (p_action toy_proposal)) (arguments (p_action toy_proposal)) =
      Inl (Error ''ENOENT'')" by (simp add: toy_failing_exec_def)
  have pend: "p_status toy_proposal = pending" by (simp add: toy_proposal_def)
  have v: "valid \<lparr> valid = True, errors = [] \<rparr>" by simp
  note T = executor_failure_keeps_pending[where callTool=toy_failing_exec, OF toy_proposed_proposal pend
      toy_proposed_verify[folded now(1)] v toy_scope ap ex s1_def]
  from T have first: "commit toy_lib toy_failing_exec toy_cenv ''proposal_u1'' toy_signed toy_proposed
      = (Inl (Error ''ENOENT''), s1)" by simp
  then have s1: "toy_after_failure = s1" unfolding toy_after_failure_def by simp
  from T have ps: "proposals s1 ''proposal_u1'' = Some toy_proposal" by simp
  from T obtain c where c: "eventLog s1 = eventLog toy_proposed @ [c]" "e_type c = ''COMMITTED''"
    by auto
  with toy_proposed_log have types: "map e_type (eventLog s1) = [''SUGGESTION'', ''COMMITTED'']"
    by auto
  have tc0: "toolCalls toy_proposed = []" by (simp add: toy_defs model_defs)
  have "\<exists>res s2. commit toy_lib (MCPFSClient_callTool toy_lib) toy_cenv2 ''proposal_u1'' toy_signed
          toy_after_failure = (Inr res, s2)"
    by (simp add: toy_after_failure_def toy_cenv2_def toy_defs model_defs commit_defs)
  then obtain res s2 where second: "commit toy_lib (MCPFSClient_callTool toy_lib) toy_cenv2
      ''proposal_u1'' toy_signed s1 = (Inr res, s2)" unfolding s1 by blast
  from commit_Inr[OF second] ps have ce: "commit_execute toy_lib (MCPFSClient_callTool toy_lib) toy_cenv2
      ''proposal_u1'' toy_proposal toy_signed s1 = (Inr res, s2)" by auto
  then obtain eid2 events2 where ap2: "append toy_lib (ce_commitEventId toy_cenv2) (ce_commitEventTs toy_cenv2)
      (committed_event toy_proposal toy_signed) (keystore s1) (eventLog s1) = Inr (eid2, events2)"
    unfolding commit_execute_def by (auto split: sum.splits)
  from T now(2) ap2 have "toolCalls (snd (commit toy_lib (MCPFSClient_callTool toy_lib) toy_cenv2
      ''proposal_u1'' toy_signed s1)) = toolCalls toy_proposed @
      [(tool (p_action toy_proposal), arguments (p_action toy_proposal)),
       (tool (p_action toy_proposal), arguments (p_action toy_proposal))]"
    by blast
  with second have "toolCalls s2 = toolCalls toy_proposed @
      [(tool (p_action toy_proposal), arguments (p_action toy_proposal)),
       (tool (p_action toy_proposal), arguments (p_action toy_proposal))]"
    by simp
  then have calls: "map fst (toolCalls s2) = [''read_file'', ''read_file'']"
    by (simp add: tc0 toy_proposal_def toy_action_def)
  from first s1 ps pend types second calls show ?thesis by auto
qed

lemmas toy_defs2 = toy_delete_action_def toy_mandate_all_def toy_signed_all_def
  toy_proposed_delete_def toy_revoke_event_def toy_revoked_def

text \<open>
  Claim C5, as the code behaves. When the tool executor throws during the \<open>commit\<close>
  of a proposal that passed all three checkpoints, the error is propagated and the
  \<open>COMMITTED\<close> event stays in the log, but \<open>commit\<close> appends no \<open>EXECUTION_FAILED\<close>
  event: the log grows by the \<open>COMMITTED\<close> event only.
\<close>

theorem executor_failure_not_recorded:
  assumes "proposals s pid = Some p" and "p_status p = pending"
    and "verifyMandate L (ce_now env) m (keystore s) (Some (eventLog s)) = Inr vr" and "valid vr"
    and "isActionInScope (tool (p_action p)) m"
    and "append L (ce_commitEventId env) (ce_commitEventTs env) (committed_event p m)
               (keystore s) (eventLog s) = Inr (eid, events1)"
    and "callTool (tool (p_action p)) (arguments (p_action p)) = Inl err"
  shows "\<exists>s' c. commit L callTool env pid m s = (Inl err, s')
     \<and> eventLog s' = eventLog s @ [c] \<and> e_type c = ''COMMITTED'' \<and> e_signer c = delegate m
     \<and> filter (\<lambda>e. e_type e = ''EXECUTION_FAILED'') (eventLog s') =
         filter (\<lambda>e. e_type e = ''EXECUTION_FAILED'') (eventLog s)
     \<and> proposals s' = proposals s"
proof -
  let ?s' = "s\<lparr> eventLog := events1,
                  toolCalls := toolCalls s @ [(tool (p_action p), arguments (p_action p))] \<rparr>"
  have first: "commit L callTool env pid m s = (Inl err, ?s')"
    using commit_executor_throws[where callTool=callTool, OF assms(1-7)] .
  from append_Inr[OF assms(6)] obtain c where c: "events1 = eventLog s @ [c]" "e_type c = ''COMMITTED''"
    "e_signer c = delegate m"
    unfolding committed_event_def by auto
  show ?thesis
    by (rule exI[of _ ?s'], rule exI[of _ c]) (use first c in simp)
qed

theorem executor_failure_not_recorded_witness:
  "\<exists>s'. commit toy_lib (MCPFSClient_callTool toy_lib) toy_cenv ''proposal_u1'' toy_signed_all
        toy_proposed_delete = (Inl (Error ''Tool not found: delete_file''), s')
     \<and> map e_type (eventLog s') = [''SUGGESTION'', ''COMMITTED'']
     \<and> map_option p_status (proposals s' ''proposal_u1'') = Some pending"
proof -
  let ?p = "toy_proposal\<lparr> p_action := toy_delete_action \<rparr>"
  have p: "proposals toy_proposed_delete ''proposal_u1'' = Some ?p"
    by (simp add: toy_defs toy_defs2 model_defs)
  have pend: "p_status ?p = pending" by (simp add: toy_proposal_def)
  have vm: "verifyMandate toy_lib (ce_now toy_cenv) toy_signed_all (keystore toy_proposed_delete)
      (Some (eventLog toy_proposed_delete)) = Inr \<lparr> valid = True, errors = [] \<rparr>"
    by (simp add: toy_defs toy_defs2 model_defs commit_defs)
  have v: "valid \<lparr> valid = True, errors = [] \<rparr>" by simp
  have sc: "isActionInScope (tool (p_action ?p)) toy_signed_all"
    by (simp add: toy_defs toy_defs2 model_defs commit_defs)
  have "\<exists>eid events1. append toy_lib (ce_commitEventId toy_cenv) (ce_commitEventTs toy_cenv)
      (committed_event ?p toy_signed_all) (keystore toy_proposed_delete)
      (eventLog toy_proposed_delete) = Inr (eid, events1)"
    by (simp add: toy_defs toy_defs2 model_defs commit_defs)
  then obtain eid events1 where ap: "append toy_lib (ce_commitEventId toy_cenv) (ce_commitEventTs toy_cenv)
      (committed_event ?p toy_signed_all) (keystore toy_proposed_delete)
      (eventLog toy_proposed_delete) = Inr (eid, events1)" by blast
  have ex: "MCPFSClient_callTool toy_lib (tool (p_action ?p)) (arguments (p_action ?p)) =
      Inl (Error ''Tool not found: delete_file'')"
    by (simp add: MCPFSClient_callTool_def toy_delete_action_def)
  have log: "\<exists>evt. eventLog toy_proposed_delete = [evt] \<and> e_type evt = ''SUGGESTION''"
    by (simp add: toy_defs toy_defs2 model_defs)
  from executor_failure_not_recorded[where callTool="MCPFSClient_callTool toy_lib", OF p pend vm v sc ap ex]
  obtain s' c where r: "commit toy_lib (MCPFSClient_callTool toy_lib) toy_cenv ''proposal_u1''
        toy_signed_all toy_proposed_delete = (Inl (Error ''Tool not found: delete_file''), s')"
    "eventLog s' = eventLog toy_proposed_delete @ [c]" "e_type c = ''COMMITTED''"
    "proposals s' = proposals toy_proposed_delete" by blast
  from r(2,3) log have "map e_type (eventLog s') = [''SUGGESTION'', ''COMMITTED'']" by auto
  moreover from r(4) p pend have "map_option p_status (proposals s' ''proposal_u1'') = Some pending"
    by simp
  ultimately show ?thesis using r(1) by (intro exI[of _ s']) simp
qed

text \<open>
  Claim C1, as the code behaves. \<open>commit\<close> of a pending proposal with a mandate that a
  \<open>MANDATE_REVOKE\<close> event of the adapter's log revokes marks the proposal rejected and
  calls no executor, but the first checkpoint already consults the log and is the one
  that fails: the detail list holds \<open>Mandate has been revoked\<close>, the
  \<open>PROPOSAL_REJECTED\<close> event records the reason \<open>INVALID_MANDATE\<close> and the error thrown
  is \<open>INVALID_MANDATE: ...\<close>. When the keystore has no private key for
  \<open>adapter:mcp-fs\<close>, the rejection event cannot be signed and the keystore's error is
  thrown instead. The second checkpoint (\<open>REVOKED_MANDATE\<close>) is never the one that fails.
\<close>

theorem revoked_mandate_rejected_as_invalid:
  assumes "proposals s pid = Some p" and "p_status p = pending"
    and "isMandateRevoked (eventLog s) (mandate_id m)"
    and "verifyMandate L (ce_now env) m (keystore s) (Some (eventLog s)) = Inr vr"
    and "commit L callTool env pid m s = (r, s')"
  shows "''Mandate has been revoked'' \<in> set (errors vr)
     \<and> proposals s' = (proposals s)(pid \<mapsto> p\<lparr> p_status := rejected \<rparr>)
     \<and> toolCalls s' = toolCalls s
     \<and> (case append L (ce_rejectEventId env) (ce_rejectEventTs env)
                (rejection_event p ''INVALID_MANDATE'' (errors vr)) (keystore s) (eventLog s) of
           Inl e \<Rightarrow> r = Inl e \<and> eventLog s' = eventLog s
         | Inr (eid, events1) \<Rightarrow>
             r = Inl (Error (''INVALID_MANDATE: '' @ join '', '' (errors vr))) \<and>
             (\<exists>evt. eventLog s' = eventLog s @ [evt] \<and> e_type evt = ''PROPOSAL_REJECTED'' \<and>
                    e_signer evt = ''adapter:mcp-fs'' \<and>
                    payload_field (e_payload evt) ''reason'' = JStr ''INVALID_MANDATE''))"
proof -
  note c = commit_revoked[OF assms(1-4), of callTool]
  from verifyMandate_errors(2)[OF assms(4,3)] have m: "''Mandate has been revoked'' \<in> set (errors vr)" .
  show ?thesis
  proof (cases "append L (ce_rejectEventId env) (ce_rejectEventTs env)
                (rejection_event p ''INVALID_MANDATE'' (errors vr)) (keystore s) (eventLog s)")
    case (Inl e)
    with c assms(5) m show ?thesis by auto
  next
    case (Inr x)
    obtain eid events1 where x: "x = (eid, events1)" by (cases x)
    from append_Inr[OF Inr[unfolded x]] obtain evt where evt: "events1 = eventLog s @ [evt]"
      "e_type evt = ''PROPOSAL_REJECTED''" "e_signer evt = ''adapter:mcp-fs''"
      "e_payload evt = JObj [(''proposalId'', JStr (p_id p)), (''reason'', JStr ''INVALID_MANDATE''),
                          (''details'', JArr (map JStr (errors vr)))]"
      unfolding rejection_event_def by auto
    have rs: "payload_field (e_payload evt) ''reason'' = JStr ''INVALID_MANDATE''"
      unfolding evt(4) by (simp add: payload_field_def)
    from c assms(5) Inr x have "r = Inl (Error (''INVALID_MANDATE: '' @ join '', '' (errors vr)))"
      "s' = s\<lparr> proposals := (proposals s)(pid \<mapsto> p\<lparr> p_status := rejected \<rparr>),
                     eventLog := events1 \<rparr>" by auto
    with evt rs m Inr x show ?thesis by auto
  qed
qed

theorem revoked_mandate_rejected_as_invalid_witness:
  "(\<exists>s'. commit toy_lib (MCPFSClient_callTool toy_lib) toy_cenv ''proposal_u1'' toy_signed toy_revoked
        = (Inl (Error ''INVALID_MANDATE: Mandate has been revoked''), s')
     \<and> map_option p_status (proposals s' ''proposal_u1'') = Some rejected
     \<and> map e_type (eventLog s') = [''SUGGESTION'', ''MANDATE_REVOKE'', ''PROPOSAL_REJECTED'']
     \<and> toolCalls s' = [])
   \<and> (\<exists>s'. commit toy_lib (MCPFSClient_callTool toy_lib) toy_cenv ''proposal_u1'' toy_signed
          toy_revoked_nokey = (Inl (Error ''Key not found or private key unavailable: ed25519:adapter:mcp-fs''), s')
     \<and> map_option p_status (proposals s' ''proposal_u1'') = Some rejected
     \<and> map e_type (eventLog s') = [''SUGGESTION'', ''MANDATE_REVOKE''])"
proof -
  have pend: "p_status toy_proposal = pending" by (simp add: toy_proposal_def)
  have mid: "mandate_id toy_signed = ''m-1''" by (simp add: toy_defs model_defs)
  have er: "errors \<lparr> valid = False, errors = [''Mandate has been revoked''] \<rparr> = [''Mandate has been revoked'']"
    by simp
  have A: "\<exists>s'. commit toy_lib (MCPFSClient_callTool toy_lib) toy_cenv ''proposal_u1'' toy_signed toy_revoked
        = (Inl (Error ''INVALID_MANDATE: Mandate has been revoked''), s')
     \<and> map_option p_status (proposals s' ''proposal_u1'') = Some rejected
     \<and> map e_type (eventLog s') = [''SUGGESTION'', ''MANDATE_REVOKE'', ''PROPOSAL_REJECTED'']
     \<and> toolCalls s' = []"
  proof -
    have p: "proposals toy_revoked ''proposal_u1'' = Some toy_proposal"
      by (simp add: toy_defs toy_defs2 model_defs)
    have log: "\<exists>e1 e2. eventLog toy_revoked = [e1, e2] \<and> e_type e1 = ''SUGGESTION'' \<and>
        e_type e2 = ''MANDATE_REVOKE'' \<and> e_payload e2 = pe_payload toy_revoke_event"
      by (simp add: toy_defs toy_defs2 model_defs)
    then have rv: "isMandateRevoked (eventLog toy_revoked) (mandate_id toy_signed)"
      unfolding mid by (auto simp: isMandateRevoked_def payload_field_def toy_revoke_event_def)
    have vm: "verifyMandate toy_lib (ce_now toy_cenv) toy_signed (keystore toy_revoked)
        (Some (eventLog toy_revoked)) = Inr \<lparr> valid = False, errors = [''Mandate has been revoked''] \<rparr>"
      by (simp add: toy_defs toy_defs2 model_defs commit_defs)
    have "\<exists>eid events1. append toy_lib (ce_rejectEventId toy_cenv) (ce_rejectEventTs toy_cenv)
        (rejection_event toy_proposal ''INVALID_MANDATE'' [''Mandate has been revoked''])
        (keystore toy_revoked) (eventLog toy_revoked) = Inr (eid, events1)"
      by (simp add: toy_defs toy_defs2 model_defs commit_defs)
    then obtain eid events1 where ap: "append toy_lib (ce_rejectEventId toy_cenv) (ce_rejectEventTs toy_cenv)
        (rejection_event toy_proposal ''INVALID_MANDATE''
           (errors \<lparr> valid = False, errors = [''Mandate has been revoked''] \<rparr>))
        (keystore toy_revoked) (eventLog toy_revoked) = Inr (eid, events1)" unfolding er by blast
    have tc: "toolCalls toy_revoked = []" by (simp add: toy_defs toy_defs2 model_defs)
    obtain r s' where c: "commit toy_lib (MCPFSClient_callTool toy_lib) toy_cenv ''proposal_u1''
        toy_signed toy_revoked = (r, s')" by (cases "commit toy_lib (MCPFSClient_callTool toy_lib) toy_cenv ''proposal_u1''
        toy_signed toy_revoked")
    note T = revoked_mandate_rejected_as_invalid[OF p pend rv vm c, unfolded ap]
    from T have r: "r = Inl (Error ''INVALID_MANDATE: Mandate has been revoked'')"
      and ps: "proposals s' = (proposals toy_revoked)(''proposal_u1'' \<mapsto> toy_proposal\<lparr> p_status := rejected \<rparr>)"
      and tcs: "toolCalls s' = toolCalls toy_revoked"
      and ev: "\<exists>evt. eventLog s' = eventLog toy_revoked @ [evt] \<and> e_type evt = ''PROPOSAL_REJECTED''"
      by auto
    from ev log have "map e_type (eventLog s') = [''SUGGESTION'', ''MANDATE_REVOKE'', ''PROPOSAL_REJECTED'']"
      by auto
    with c r ps tcs tc show ?thesis by (intro exI[of _ s']) simp
  qed
  have B: "\<exists>s'. commit toy_lib (MCPFSClient_callTool toy_lib) toy_cenv ''proposal_u1'' toy_signed
          toy_revoked_nokey = (Inl (Error ''Key not found or private key unavailable: ed25519:adapter:mcp-fs''), s')
     \<and> map_option p_status (proposals s' ''proposal_u1'') = Some rejected
     \<and> map e_type (eventLog s') = [''SUGGESTION'', ''MANDATE_REVOKE'']"
  proof -
    have p: "proposals toy_revoked_nokey ''proposal_u1'' = Some toy_proposal"
      by (simp add: toy_revoked_nokey_def toy_defs toy_defs2 model_defs)
    have log: "\<exists>e1 e2. eventLog toy_revoked_nokey = [e1, e2] \<and> e_type e1 = ''SUGGESTION'' \<and>
        e_type e2 = ''MANDATE_REVOKE'' \<and> e_payload e2 = pe_payload toy_revoke_event"
      by (simp add: toy_revoked_nokey_def toy_defs toy_defs2 model_defs)
    then have rv: "isMandateRevoked (eventLog toy_revoked_nokey) (mandate_id toy_signed)"
      unfolding mid by (auto simp: isMandateRevoked_def payload_field_def toy_revoke_event_def)
    have vm: "verifyMandate toy_lib (ce_now toy_cenv) toy_signed (keystore toy_revoked_nokey)
        (Some (eventLog toy_revoked_nokey)) = Inr \<lparr> valid = False, errors = [''Mandate has been revoked''] \<rparr>"
      by (simp add: toy_revoked_nokey_def toy_defs toy_defs2 model_defs commit_defs)
    have ap: "append toy_lib (ce_rejectEventId toy_cenv) (ce_rejectEventTs toy_cenv)
        (rejection_event toy_proposal ''INVALID_MANDATE''
           (errors \<lparr> valid = False, errors = [''Mandate has been revoked''] \<rparr>))
        (keystore toy_revoked_nokey) (eventLog toy_revoked_nokey) =
        Inl (Error ''Key not found or private key unavailable: ed25519:adapter:mcp-fs'')"
      by (simp add: toy_revoked_nokey_def toy_defs toy_defs2 model_defs commit_defs)
    obtain r s' where c: "commit toy_lib (MCPFSClient_callTool toy_lib) toy_cenv ''proposal_u1''
        toy_signed toy_revoked_nokey = (r, s')" by (cases "commit toy_lib (MCPFSClient_callTool toy_lib) toy_cenv ''proposal_u1''
        toy_signed toy_revoked_nokey")
    note T = revoked_mandate_rejected_as_invalid[OF p pend rv vm c, unfolded ap]
    from T have r: "r = Inl (Error ''Key not found or private key unavailable: ed25519:adapter:mcp-fs'')"
      and ps: "proposals s' = (proposals toy_revoked_nokey)(''proposal_u1'' \<mapsto> toy_proposal\<lparr> p_status := rejected \<rparr>)"
      and ev: "eventLog s' = eventLog toy_revoked_nokey"
      by auto
    from ev log have "map e_type (eventLog s') = [''SUGGESTION'', ''MANDATE_REVOKE'']"
      by auto
    with c r ps show ?thesis by (intro exI[of _ s']) simp
  qed
  from A B show ?thesis ..
qed

section \<open>Receipt chain: add, then verify\<close>

lemma findIndex_fresh:
  "\<forall>r \<in> set xs. \<not> P r \<Longrightarrow> P x \<Longrightarrow> findIndex P (xs @ [x]) = Some (length xs)"
  by (induction xs) auto

lemma addReceipt_Inr:
  assumes "addReceipt L ts rid receiptData chain = Inr (h, chain')"
  shows "\<exists>d c. canonicalize L receiptData = Some d \<and> d \<noteq> [] \<and>
           canonicalize L (chainData_json rid (base64urlEncode L (sha256 L d))
              (if chain \<noteq> [] then Some (receiptHash (last chain)) else None) (length chain) ts) = Some c \<and>
           c \<noteq> [] \<and> h = base64urlEncode L (sha256 L c) \<and>
           chain' = chain @ [\<lparr> receiptHash = h, receiptId = rid,
                                previousHash = (if chain \<noteq> [] then receiptHash (last chain) else h),
                                c_timestamp = ts, c_index = length chain \<rparr>]"
proof -
  from assms have nf: "\<not> falsy (canonicalize L receiptData)"
    unfolding addReceipt_def Let_def by (auto split: if_splits)
  then obtain d where d: "canonicalize L receiptData = Some d" "d \<noteq> []" using falsy_iff by blast
  let ?cd = "chainData_json rid (base64urlEncode L (sha256 L d))
              (if chain \<noteq> [] then Some (receiptHash (last chain)) else None) (length chain) ts"
  from assms nf d have nf2: "\<not> falsy (canonicalize L ?cd)"
    unfolding addReceipt_def Let_def by (auto split: if_splits)
  then obtain c where c: "canonicalize L ?cd = Some c" "c \<noteq> []" using falsy_iff by blast
  from assms nf nf2 d c have "h = base64urlEncode L (sha256 L c) \<and>
           chain' = chain @ [\<lparr> receiptHash = h, receiptId = rid,
                                previousHash = (if chain \<noteq> [] then receiptHash (last chain) else h),
                                c_timestamp = ts, c_index = length chain \<rparr>]"
    unfolding addReceipt_def Let_def by (auto split: if_splits)
  with d c show ?thesis by blast
qed

text \<open>
  Claim C4, as the code behaves. Right after \<open>addReceipt\<close> of an identifier that is new
  to the chain, \<open>verifyReceipt\<close> returns true when the chain was not empty. For the
  first link it recomputes the hash with \<open>previousHash\<close> set to the link's own hash,
  while \<open>addReceipt\<close> hashed \<open>previousHash = null\<close>: it returns true only if the
  stored hash is the hash of a document that contains that very hash.
\<close>

theorem receipt_chain_add_then_verify:
  assumes "addReceipt L ts rid receiptData chain = Inr (h, chain')"
    and "\<forall>r \<in> set chain. receiptId r \<noteq> rid"
  shows "(chain \<noteq> [] \<longrightarrow> verifyReceipt L rid receiptData chain')
     \<and> (chain = [] \<longrightarrow>
           (verifyReceipt L rid receiptData chain' \<longleftrightarrow>
              (\<exists>d c. canonicalize L receiptData = Some d \<and>
                 canonicalize L (chainData_json rid (base64urlEncode L (sha256 L d)) (Some h) 0 ts) = Some c \<and>
                 c \<noteq> [] \<and> base64urlEncode L (sha256 L c) = h)))"
proof -
  from addReceipt_Inr[OF assms(1)] obtain d c where d: "canonicalize L receiptData = Some d" "d \<noteq> []"
    and c: "canonicalize L (chainData_json rid (base64urlEncode L (sha256 L d))
              (if chain \<noteq> [] then Some (receiptHash (last chain)) else None) (length chain) ts) = Some c"
      "c \<noteq> []"
    and h: "h = base64urlEncode L (sha256 L c)"
    and ch: "chain' = chain @ [\<lparr> receiptHash = h, receiptId = rid,
                                previousHash = (if chain \<noteq> [] then receiptHash (last chain) else h),
                                c_timestamp = ts, c_index = length chain \<rparr>]"
    by blast
  let ?new = "\<lparr> receiptHash = h, receiptId = rid,
                previousHash = (if chain \<noteq> [] then receiptHash (last chain) else h),
                c_timestamp = ts, c_index = length chain \<rparr>"
  have fi: "findIndex (\<lambda>r. receiptId r = rid) chain' = Some (length chain)"
    unfolding ch using findIndex_fresh[of chain "\<lambda>r. receiptId r = rid" ?new] assms(2) by simp
  have nth: "chain' ! length chain = ?new" unfolding ch by simp
  have nfd: "\<not> falsy (canonicalize L receiptData)" using d by (simp add: falsy_def)
  show ?thesis
  proof (intro conjI impI)
    assume ne: "chain \<noteq> []"
    then have pos: "0 < length chain" by simp
    have prev: "chain' ! (length chain - 1) = last chain"
      unfolding ch using ne by (simp add: nth_append last_conv_nth)
    from ne c have c': "canonicalize L (chainData_json rid (base64urlEncode L (sha256 L d))
              (Some (receiptHash (last chain))) (length chain) ts) = Some c" by simp
    show "verifyReceipt L rid receiptData chain'"
      unfolding verifyReceipt_def fi
      using pos nth prev d c' c(2) h ne by (simp add: Let_def falsy_def)
  next
    assume e: "chain = []"
    have "verifyReceipt L rid receiptData chain' \<longleftrightarrow>
        (\<not> falsy (canonicalize L (chainData_json rid (base64urlEncode L (sha256 L d)) (Some h) 0 ts)) \<and>
         base64urlEncode L (sha256 L (the (canonicalize L
            (chainData_json rid (base64urlEncode L (sha256 L d)) (Some h) 0 ts)))) = h)"
      unfolding verifyReceipt_def fi
      using nth d e by (simp add: Let_def falsy_def)
    also have "\<dots> \<longleftrightarrow> (\<exists>d' c'. canonicalize L receiptData = Some d' \<and>
                 canonicalize L (chainData_json rid (base64urlEncode L (sha256 L d')) (Some h) 0 ts) = Some c' \<and>
                 c' \<noteq> [] \<and> base64urlEncode L (sha256 L c') = h)"
      using d falsy_iff[of "canonicalize L (chainData_json rid (base64urlEncode L (sha256 L d)) (Some h) 0 ts)"]
      by auto
    finally show "verifyReceipt L rid receiptData chain' \<longleftrightarrow>
              (\<exists>d c. canonicalize L receiptData = Some d \<and>
                 canonicalize L (chainData_json rid (base64urlEncode L (sha256 L d)) (Some h) 0 ts) = Some c \<and>
                 c \<noteq> [] \<and> base64urlEncode L (sha256 L c) = h)" .
  qed
qed

lemmas receipt_defs = addReceipt_def verifyReceipt_def chainData_json_def base64urlEncode_def
  toy_receipt_data_def toy_lib_def falsy_def Let_def string_of_nat.simps

theorem receipt_chain_add_then_verify_witness:
  "\<exists>h1 chain1 h2 chain2.
      addReceipt toy_lib ''t1'' ''r1'' toy_receipt_data [] = Inr (h1, chain1)
    \<and> \<not> verifyReceipt toy_lib ''r1'' toy_receipt_data chain1
    \<and> addReceipt toy_lib ''t2'' ''r2'' toy_receipt_data chain1 = Inr (h2, chain2)
    \<and> verifyReceipt toy_lib ''r2'' toy_receipt_data chain2
    \<and> \<not> verifyReceipt toy_lib ''r1'' toy_receipt_data chain2"
proof -
  have "\<exists>h1 chain1. addReceipt toy_lib ''t1'' ''r1'' toy_receipt_data [] = Inr (h1, chain1)"
    by (simp add: receipt_defs)
  then obtain h1 chain1 where a1: "addReceipt toy_lib ''t1'' ''r1'' toy_receipt_data [] = Inr (h1, chain1)"
    by blast
  from addReceipt_Inr[OF a1] have c1: "chain1 = [\<lparr> receiptHash = h1, receiptId = ''r1'',
      previousHash = h1, c_timestamp = ''t1'', c_index = 0 \<rparr>]"
    and h1: "h1 = ''{receiptId:\"r1\",receiptDataHash:\"{amount:5,vendor:\"acme\",}\",previousHash:null,index:0,timestamp:\"t1\",}''"
    by (auto simp: receipt_defs)
  have fresh1: "\<forall>r \<in> set []. receiptId r \<noteq> ''r1''" by simp
  note T1 = receipt_chain_add_then_verify[OF a1 fresh1]
  have nofix: "\<not> (\<exists>d c. canonicalize toy_lib toy_receipt_data = Some d \<and>
                 canonicalize toy_lib (chainData_json ''r1'' (base64urlEncode toy_lib (sha256 toy_lib d)) (Some h1) 0 ''t1'') = Some c \<and>
                 c \<noteq> [] \<and> base64urlEncode toy_lib (sha256 toy_lib c) = h1)"
    unfolding h1 by (simp add: receipt_defs)
  with T1 have v1: "\<not> verifyReceipt toy_lib ''r1'' toy_receipt_data chain1" by blast
  have "\<exists>h2 chain2. addReceipt toy_lib ''t2'' ''r2'' toy_receipt_data chain1 = Inr (h2, chain2)"
    unfolding c1 by (simp add: receipt_defs)
  then obtain h2 chain2 where a2: "addReceipt toy_lib ''t2'' ''r2'' toy_receipt_data chain1 = Inr (h2, chain2)"
    by blast
  have fresh2: "\<forall>r \<in> set chain1. receiptId r \<noteq> ''r2''" unfolding c1 by simp
  have ne: "chain1 \<noteq> []" unfolding c1 by simp
  from receipt_chain_add_then_verify[OF a2 fresh2] ne
  have v2: "verifyReceipt toy_lib ''r2'' toy_receipt_data chain2" by blast
  from addReceipt_Inr[OF a2] obtain x where c2: "chain2 = chain1 @ [x]" by blast
  have v3: "\<not> verifyReceipt toy_lib ''r1'' toy_receipt_data chain2"
    unfolding c2 c1 h1 by (simp add: receipt_defs)
  from a1 v1 a2 v2 v3 show ?thesis by blast
qed

end
